theory Spec2Isabelle
  imports Complex_Main "HOL-Library.Word" "HOL-Library.Multiset"
begin

section \<open>Values supplied by the toolkit\<close>

text \<open>
  The two recognizers specialise Clutter's gesture class.  The class itself, its events and
  the display are not part of the repository; the recognizers only read them through getters.
  Coordinates are C \<open>float\<close>s and are idealised as reals here (rounding of float arithmetic
  is not modelled); event times are \<open>guint32\<close> milliseconds and wrap around.
\<close>

datatype ClutterGestureState =
    CLUTTER_GESTURE_STATE_POSSIBLE
  | CLUTTER_GESTURE_STATE_RECOGNIZING
  | CLUTTER_GESTURE_STATE_CANCELLED
  | CLUTTER_GESTURE_STATE_COMPLETED

datatype ClutterInputDeviceType =
    CLUTTER_POINTER_DEVICE
  | CLUTTER_KEYBOARD_DEVICE
  | CLUTTER_EXTENSION_DEVICE
  | CLUTTER_JOYSTICK_DEVICE
  | CLUTTER_TABLET_DEVICE
  | CLUTTER_TOUCHPAD_DEVICE
  | CLUTTER_TOUCHSCREEN_DEVICE
  | CLUTTER_PEN_DEVICE
  | CLUTTER_ERASER_DEVICE
  | CLUTTER_CURSOR_DEVICE
  | CLUTTER_PAD_DEVICE

record ClutterEvent =
  event_device_type :: ClutterInputDeviceType
  event_time :: "32 word"

record graphene_point_t =
  pt_x :: real
  pt_y :: real

text \<open>What the gesture class knows about one active point: where it began, where it is
  now, and the latest event that concerned it.\<close>

record GesturePoint =
  point_begin_coords_abs :: graphene_point_t
  point_coords_abs :: graphene_point_t
  point_event :: ClutterEvent

text \<open>The parent object \<open>ClutterGesture\<close>: the state and the active points, keyed by the
  point index the callbacks receive.\<close>

record ClutterGesture =
  gesture_state :: ClutterGestureState
  gesture_points :: "(nat \<times> GesturePoint) list"

datatype error = INVALID_POINT | NULL_EVENT | ASSERT_NOT_REACHED | ASSERTION_FAILED

definition clutter_gesture_get_n_points :: "'a ClutterGesture_scheme \<Rightarrow> nat" where
  "clutter_gesture_get_n_points g = length (gesture_points g)"

definition clutter_gesture_get_point :: "'a ClutterGesture_scheme \<Rightarrow> nat \<Rightarrow> GesturePoint option" where
  "clutter_gesture_get_point g point = map_of (gesture_points g) point"

definition is_terminal :: "ClutterGestureState \<Rightarrow> bool" where
  "is_terminal st = (st = CLUTTER_GESTURE_STATE_CANCELLED \<or> st = CLUTTER_GESTURE_STATE_COMPLETED)"

text \<open>Modelled from the spec: the transition validation of the gesture class, which is not in
  the repository.  Possible is initial, Recognizing is intermediate, Cancelled and Completed
  are terminal; a request that does not move forward along this order is not applied.\<close>

definition transition_allowed :: "ClutterGestureState \<Rightarrow> ClutterGestureState \<Rightarrow> bool" where
  "transition_allowed old_state new_state =
     (case old_state of
        CLUTTER_GESTURE_STATE_POSSIBLE \<Rightarrow> new_state \<noteq> CLUTTER_GESTURE_STATE_POSSIBLE
      | CLUTTER_GESTURE_STATE_RECOGNIZING \<Rightarrow> is_terminal new_state
      | CLUTTER_GESTURE_STATE_CANCELLED \<Rightarrow> False
      | CLUTTER_GESTURE_STATE_COMPLETED \<Rightarrow> False)"

section \<open>shell-dnd-start-gesture.c\<close>

datatype dnd_property = PROP_MANUAL_MODE | PROP_TIMEOUT_THRESHOLD

text \<open>The private struct, followed by the observable effects in the order they happen: the
  calls into the event library (\<open>clutter_event_copy\<close>, \<open>clutter_event_free\<close>) and the
  property notifications.\<close>

record ShellDndStartGesture = ClutterGesture +
  drag_threshold_ignored :: bool
  point_begin_event :: "ClutterEvent option"
  drag_triggering_event :: "ClutterEvent option"
  manual_mode :: bool
  timeout_threshold_ms :: "32 word"
  copied_events :: "ClutterEvent list"
  freed_events :: "ClutterEvent list"
  notified :: "dnd_property list"

text \<open>The settings value and the scale factor of the stage's theme context.  Their product
  is taken in the integers: C's \<open>int\<close> overflow is undefined and out of reach of real
  thresholds.\<close>

record StHost =
  st_settings_drag_threshold :: int
  st_theme_context_scale_factor :: int

definition clutter_event_copy :: "ShellDndStartGesture \<Rightarrow> ClutterEvent \<Rightarrow> ShellDndStartGesture" where
  "clutter_event_copy g e = g\<lparr>copied_events := copied_events g @ [e]\<rparr>"

definition clutter_event_free :: "ShellDndStartGesture \<Rightarrow> ClutterEvent \<Rightarrow> ShellDndStartGesture" where
  "clutter_event_free g e = g\<lparr>freed_events := freed_events g @ [e]\<rparr>"

definition dnd_state_changed ::
  "ShellDndStartGesture \<Rightarrow> ClutterGestureState \<Rightarrow> ClutterGestureState \<Rightarrow> ShellDndStartGesture" where
  "dnd_state_changed g old_state new_state =
     (if new_state = CLUTTER_GESTURE_STATE_CANCELLED \<or> new_state = CLUTTER_GESTURE_STATE_COMPLETED
      then
        let g1 = (case drag_triggering_event g of
                    None \<Rightarrow> g
                  | Some e \<Rightarrow> (clutter_event_free g e)\<lparr>drag_triggering_event := None\<rparr>);
            g2 = (case point_begin_event g1 of
                    None \<Rightarrow> g1
                  | Some e \<Rightarrow> (clutter_event_free g1 e)\<lparr>point_begin_event := None\<rparr>)
        in g2
      else g)"

definition dnd_set_state :: "ShellDndStartGesture \<Rightarrow> ClutterGestureState \<Rightarrow> ShellDndStartGesture" where
  "dnd_set_state g new_state =
     (if transition_allowed (gesture_state g) new_state
      then dnd_state_changed (g\<lparr>gesture_state := new_state\<rparr>) (gesture_state g) new_state
      else g)"

definition shell_dnd_start_gesture_start_drag ::
  "ShellDndStartGesture \<Rightarrow> ClutterEvent option \<Rightarrow> ShellDndStartGesture" where
  "shell_dnd_start_gesture_start_drag g start_event =
     (if clutter_gesture_get_n_points g \<noteq> 1 then g
      else if gesture_state g = CLUTTER_GESTURE_STATE_POSSIBLE then
        dnd_set_state
          (case start_event of
             None \<Rightarrow> g
           | Some e \<Rightarrow> (clutter_event_copy g e)\<lparr>drag_triggering_event := Some e\<rparr>)
          CLUTTER_GESTURE_STATE_COMPLETED
      else g)"

definition maybe_start_drag :: "StHost \<Rightarrow> ShellDndStartGesture \<Rightarrow> nat \<Rightarrow> error + ShellDndStartGesture" where
  "maybe_start_drag h g point =
     (case clutter_gesture_get_point g point of
        None \<Rightarrow> Inl INVALID_POINT
      | Some p \<Rightarrow>
          let event = point_event p;
              begin_coords = point_begin_coords_abs p;
              coords = point_coords_abs p
          in
          if drag_threshold_ignored g then Inr g
          else
            let drag_threshold = st_settings_drag_threshold h * st_theme_context_scale_factor h in
            if \<bar>pt_x coords - pt_x begin_coords\<bar> > real_of_int drag_threshold \<or>
               \<bar>pt_y coords - pt_y begin_coords\<bar> > real_of_int drag_threshold
            then
              (case point_begin_event g of
                 None \<Rightarrow> Inl NULL_EVENT
               | Some begin_event \<Rightarrow>
                   let device_type = event_device_type event;
                       is_pointer_or_touchpad =
                         (device_type = CLUTTER_POINTER_DEVICE \<or> device_type = CLUTTER_TOUCHPAD_DEVICE);
                       ellapsed_time = event_time event - event_time begin_event
                   in
                   if is_pointer_or_touchpad \<or> ellapsed_time > timeout_threshold_ms g
                   then Inr (shell_dnd_start_gesture_start_drag g (Some event))
                   else Inr (g\<lparr>drag_threshold_ignored := True\<rparr>))
            else Inr g)"

definition dnd_point_began :: "StHost \<Rightarrow> ShellDndStartGesture \<Rightarrow> nat \<Rightarrow> error + ShellDndStartGesture" where
  "dnd_point_began h g point =
     (if clutter_gesture_get_n_points g > 1
      then Inr (dnd_set_state g CLUTTER_GESTURE_STATE_CANCELLED)
      else
        (case clutter_gesture_get_point g point of
           None \<Rightarrow> Inl INVALID_POINT
         | Some p \<Rightarrow>
             let event = point_event p;
                 g1 = (clutter_event_copy g event)
                        \<lparr>point_begin_event := Some event, drag_threshold_ignored := False\<rparr>
             in
             if \<not> manual_mode g1 \<and> gesture_state g1 = CLUTTER_GESTURE_STATE_POSSIBLE
             then maybe_start_drag h g1 point
             else Inr g1))"

definition dnd_point_moved :: "StHost \<Rightarrow> ShellDndStartGesture \<Rightarrow> nat \<Rightarrow> error + ShellDndStartGesture" where
  "dnd_point_moved h g point =
     (if \<not> manual_mode g \<and> gesture_state g = CLUTTER_GESTURE_STATE_POSSIBLE
      then maybe_start_drag h g point
      else Inr g)"

definition dnd_point_ended :: "ShellDndStartGesture \<Rightarrow> nat \<Rightarrow> ShellDndStartGesture" where
  "dnd_point_ended g point =
     (if gesture_state g = CLUTTER_GESTURE_STATE_POSSIBLE \<and> clutter_gesture_get_n_points g = 1
      then dnd_set_state g CLUTTER_GESTURE_STATE_CANCELLED
      else g)"

text \<open>The instance initialiser is empty: the object starts zeroed.\<close>

definition shell_dnd_start_gesture_init :: "ShellDndStartGesture" where
  "shell_dnd_start_gesture_init =
     \<lparr>gesture_state = CLUTTER_GESTURE_STATE_POSSIBLE, gesture_points = [],
      drag_threshold_ignored = False, point_begin_event = None, drag_triggering_event = None,
      manual_mode = False, timeout_threshold_ms = 0,
      copied_events = [], freed_events = [], notified = []\<rparr>"

definition shell_dnd_start_gesture_get_point_begin_event :: "ShellDndStartGesture \<Rightarrow> ClutterEvent option" where
  "shell_dnd_start_gesture_get_point_begin_event g = point_begin_event g"

definition shell_dnd_start_gesture_get_drag_triggering_event :: "ShellDndStartGesture \<Rightarrow> ClutterEvent option" where
  "shell_dnd_start_gesture_get_drag_triggering_event g = drag_triggering_event g"

definition shell_dnd_start_gesture_get_manual_mode :: "ShellDndStartGesture \<Rightarrow> bool" where
  "shell_dnd_start_gesture_get_manual_mode g = manual_mode g"

definition shell_dnd_start_gesture_set_manual_mode :: "ShellDndStartGesture \<Rightarrow> bool \<Rightarrow> ShellDndStartGesture" where
  "shell_dnd_start_gesture_set_manual_mode g new_manual_mode =
     (if manual_mode g = new_manual_mode then g
      else g\<lparr>manual_mode := new_manual_mode, notified := notified g @ [PROP_MANUAL_MODE]\<rparr>)"

definition shell_dnd_start_gesture_get_timeout_threshold :: "ShellDndStartGesture \<Rightarrow> 32 word" where
  "shell_dnd_start_gesture_get_timeout_threshold g = timeout_threshold_ms g"

definition shell_dnd_start_gesture_set_timeout_threshold ::
  "ShellDndStartGesture \<Rightarrow> 32 word \<Rightarrow> ShellDndStartGesture" where
  "shell_dnd_start_gesture_set_timeout_threshold g new_timeout_threshold_ms =
     (if timeout_threshold_ms g = new_timeout_threshold_ms then g
      else g\<lparr>timeout_threshold_ms := new_timeout_threshold_ms,
             notified := notified g @ [PROP_TIMEOUT_THRESHOLD]\<rparr>)"

section \<open>shell-edge-drag-gesture.c\<close>

abbreviation EDGE_THRESHOLD :: int where "EDGE_THRESHOLD \<equiv> 20"
abbreviation DRAG_DISTANCE :: int where "DRAG_DISTANCE \<equiv> 80"
abbreviation CANCEL_THRESHOLD :: int where "CANCEL_THRESHOLD \<equiv> 100"
abbreviation CANCEL_TIMEOUT_MS :: nat where "CANCEL_TIMEOUT_MS \<equiv> 200"

text \<open>\<open>StSide\<close> is declared by the St library in this order, so that \<open>ST_SIDE_TOP\<close> is
  the smallest and \<open>ST_SIDE_LEFT\<close> the largest value, as the setter's range check expects.
  The stored side is always one of the four (the initial value or one that passed the setter's
  check), so the assertion that follows each \<open>switch\<close> over it cannot be reached and has no
  branch here.\<close>

datatype StSide = ST_SIDE_TOP | ST_SIDE_RIGHT | ST_SIDE_BOTTOM | ST_SIDE_LEFT

fun StSide_value :: "StSide \<Rightarrow> int" where
  "StSide_value ST_SIDE_TOP = 0"
| "StSide_value ST_SIDE_RIGHT = 1"
| "StSide_value ST_SIDE_BOTTOM = 2"
| "StSide_value ST_SIDE_LEFT = 3"

definition StSide_of_value :: "int \<Rightarrow> StSide" where
  "StSide_of_value v =
     (if v = 0 then ST_SIDE_TOP else if v = 1 then ST_SIDE_RIGHT
      else if v = 2 then ST_SIDE_BOTTOM else ST_SIDE_LEFT)"

record MtkRectangle =
  rect_x :: int
  rect_y :: int
  rect_width :: int
  rect_height :: int

text \<open>The display's two queries are taken as they are: the lookup answers -1 when no
  monitor contains the rectangle.\<close>

record MetaDisplay =
  meta_display_get_monitor_index_for_rect :: "MtkRectangle \<Rightarrow> int"
  meta_display_get_monitor_geometry :: "int \<Rightarrow> MtkRectangle"

text \<open>What the object lets others observe, in the order it happens: the \<open>progress\<close> signal,
  the change notification of \<open>side\<close>, and the state changes applied by the parent class.\<close>

datatype edge_output =
    PROGRESS real
  | NOTIFY_SIDE
  | GESTURE_STATE ClutterGestureState ClutterGestureState

text \<open>The private struct, then the main loop's pending timeout sources that call
  \<open>on_cancel_timeout\<close> for this object, the last source id handed out, and the outputs.\<close>

record ShellEdgeDragGesture = ClutterGesture +
  side :: StSide
  cancel_timeout_point :: nat
  cancel_timeout_id :: nat
  timeout_sources :: "nat list"
  last_source_id :: nat
  emitted :: "edge_output list"

text \<open>Source ids are positive; \<open>g_source_remove\<close> forgets a pending source.\<close>

definition g_timeout_add :: "ShellEdgeDragGesture \<Rightarrow> nat \<Rightarrow> ShellEdgeDragGesture \<times> nat" where
  "g_timeout_add g interval =
     (let new_id = Suc (last_source_id g)
      in (g\<lparr>timeout_sources := timeout_sources g @ [new_id], last_source_id := new_id\<rparr>, new_id))"

definition g_source_remove :: "ShellEdgeDragGesture \<Rightarrow> nat \<Rightarrow> ShellEdgeDragGesture" where
  "g_source_remove g source_id = g\<lparr>timeout_sources := removeAll source_id (timeout_sources g)\<rparr>"

text \<open>C's conversion of a float to \<open>int\<close> drops the fraction.\<close>

definition float_to_int :: "real \<Rightarrow> int" where
  "float_to_int r = (if r < 0 then \<lceil>r\<rceil> else \<lfloor>r\<rfloor>)"

text \<open>The component distances that \<open>graphene_point_distance\<close> stores through its two out
  parameters are absolute values; its return value is not used by this file.\<close>

definition graphene_point_distance :: "graphene_point_t \<Rightarrow> graphene_point_t \<Rightarrow> real \<times> real" where
  "graphene_point_distance a b = (\<bar>pt_x a - pt_x b\<bar>, \<bar>pt_y a - pt_y b\<bar>)"

definition get_monitor_for_coords :: "MetaDisplay \<Rightarrow> graphene_point_t \<Rightarrow> MtkRectangle option" where
  "get_monitor_for_coords display coords =
     (let rect = \<lparr>rect_x = float_to_int (pt_x coords - 1),
                  rect_y = float_to_int (pt_y coords - 1),
                  rect_width = 1, rect_height = 1\<rparr>;
          monitor_index = meta_display_get_monitor_index_for_rect display rect
      in if monitor_index = - 1 then None
         else Some (meta_display_get_monitor_geometry display monitor_index))"

definition is_near_monitor_edge :: "MetaDisplay \<Rightarrow> ShellEdgeDragGesture \<Rightarrow> nat \<Rightarrow> error + bool" where
  "is_near_monitor_edge display g point =
     (case clutter_gesture_get_point g point of
        None \<Rightarrow> Inl INVALID_POINT
      | Some p \<Rightarrow>
          let coords = point_coords_abs p in
          (case get_monitor_for_coords display coords of
             None \<Rightarrow> Inl ASSERT_NOT_REACHED
           | Some monitor_geometry \<Rightarrow>
               Inr (case side g of
                      ST_SIDE_LEFT \<Rightarrow>
                        pt_x coords < real_of_int (rect_x monitor_geometry + EDGE_THRESHOLD)
                    | ST_SIDE_RIGHT \<Rightarrow>
                        pt_x coords > real_of_int (rect_x monitor_geometry + rect_width monitor_geometry - EDGE_THRESHOLD)
                    | ST_SIDE_TOP \<Rightarrow>
                        pt_y coords < real_of_int (rect_y monitor_geometry + EDGE_THRESHOLD)
                    | ST_SIDE_BOTTOM \<Rightarrow>
                        pt_y coords > real_of_int (rect_y monitor_geometry + rect_height monitor_geometry - EDGE_THRESHOLD))))"

definition exceeds_cancel_threshold :: "ShellEdgeDragGesture \<Rightarrow> nat \<Rightarrow> error + bool" where
  "exceeds_cancel_threshold g point =
     (case clutter_gesture_get_point g point of
        None \<Rightarrow> Inl INVALID_POINT
      | Some p \<Rightarrow>
          let begin_coords = point_begin_coords_abs p;
              latest_coords = point_coords_abs p;
              (distance_x, distance_y) = graphene_point_distance latest_coords begin_coords
          in Inr (case side g of
                    ST_SIDE_LEFT \<Rightarrow> distance_x > real_of_int CANCEL_THRESHOLD
                  | ST_SIDE_RIGHT \<Rightarrow> distance_x > real_of_int CANCEL_THRESHOLD
                  | ST_SIDE_TOP \<Rightarrow> distance_y > real_of_int CANCEL_THRESHOLD
                  | ST_SIDE_BOTTOM \<Rightarrow> distance_y > real_of_int CANCEL_THRESHOLD))"

definition passes_distance_needed :: "MetaDisplay \<Rightarrow> ShellEdgeDragGesture \<Rightarrow> nat \<Rightarrow> error + bool" where
  "passes_distance_needed display g sequence =
     (case clutter_gesture_get_point g sequence of
        None \<Rightarrow> Inl INVALID_POINT
      | Some p \<Rightarrow>
          let begin_coords = point_begin_coords_abs p in
          (case get_monitor_for_coords display begin_coords of
             None \<Rightarrow> Inl ASSERT_NOT_REACHED
           | Some monitor_geometry \<Rightarrow>
               let latest_coords = point_coords_abs p in
               Inr (case side g of
                      ST_SIDE_LEFT \<Rightarrow>
                        pt_x latest_coords > real_of_int (rect_x monitor_geometry + DRAG_DISTANCE)
                    | ST_SIDE_RIGHT \<Rightarrow>
                        pt_x latest_coords < real_of_int (rect_x monitor_geometry + rect_width monitor_geometry - DRAG_DISTANCE)
                    | ST_SIDE_TOP \<Rightarrow>
                        pt_y latest_coords > real_of_int (rect_y monitor_geometry + DRAG_DISTANCE)
                    | ST_SIDE_BOTTOM \<Rightarrow>
                        pt_y latest_coords < real_of_int (rect_y monitor_geometry + rect_height monitor_geometry - DRAG_DISTANCE))))"

definition edge_state_changed ::
  "ShellEdgeDragGesture \<Rightarrow> ClutterGestureState \<Rightarrow> ClutterGestureState \<Rightarrow> ShellEdgeDragGesture" where
  "edge_state_changed g old_state new_state =
     (if new_state = CLUTTER_GESTURE_STATE_CANCELLED \<or> new_state = CLUTTER_GESTURE_STATE_COMPLETED
      then
        (if cancel_timeout_id g \<noteq> 0
         then (g_source_remove g (cancel_timeout_id g))\<lparr>cancel_timeout_id := 0\<rparr>
         else g)
      else g)"

definition edge_set_state :: "ShellEdgeDragGesture \<Rightarrow> ClutterGestureState \<Rightarrow> ShellEdgeDragGesture" where
  "edge_set_state g new_state =
     (if transition_allowed (gesture_state g) new_state
      then edge_state_changed
             (g\<lparr>gesture_state := new_state,
                emitted := emitted g @ [GESTURE_STATE (gesture_state g) new_state]\<rparr>)
             (gesture_state g) new_state
      else g)"

text \<open>The callback answers \<open>G_SOURCE_REMOVE\<close> on every path; the main loop then drops the
  source (see \<open>dispatch_cancel_timeout\<close>).\<close>

definition on_cancel_timeout :: "MetaDisplay \<Rightarrow> ShellEdgeDragGesture \<Rightarrow> error + ShellEdgeDragGesture" where
  "on_cancel_timeout display g =
     (case is_near_monitor_edge display g (cancel_timeout_point g) of
        Inl e \<Rightarrow> Inl e
      | Inr near \<Rightarrow>
          let g1 = (if near then edge_set_state g CLUTTER_GESTURE_STATE_CANCELLED else g)
          in Inr (g1\<lparr>cancel_timeout_id := 0\<rparr>))"

definition edge_point_began :: "MetaDisplay \<Rightarrow> ShellEdgeDragGesture \<Rightarrow> nat \<Rightarrow> error + ShellEdgeDragGesture" where
  "edge_point_began display g point =
     (let n_points = clutter_gesture_get_n_points g in
      if n_points > 1 then Inr (edge_set_state g CLUTTER_GESTURE_STATE_CANCELLED)
      else
        (case is_near_monitor_edge display g point of
           Inl e \<Rightarrow> Inl e
         | Inr near \<Rightarrow>
             if \<not> near then Inr (edge_set_state g CLUTTER_GESTURE_STATE_CANCELLED)
             else
               let g1 = g\<lparr>cancel_timeout_point := point\<rparr> in
               if cancel_timeout_id g1 \<noteq> 0 then Inl ASSERTION_FAILED
               else
                 let (g2, new_id) = g_timeout_add g1 CANCEL_TIMEOUT_MS
                 in Inr (g2\<lparr>cancel_timeout_id := new_id\<rparr>)))"

definition edge_point_moved :: "MetaDisplay \<Rightarrow> ShellEdgeDragGesture \<Rightarrow> nat \<Rightarrow> error + ShellEdgeDragGesture" where
  "edge_point_moved display g point =
     (case exceeds_cancel_threshold g point of
        Inl e \<Rightarrow> Inl e
      | Inr True \<Rightarrow> Inr (edge_set_state g CLUTTER_GESTURE_STATE_CANCELLED)
      | Inr False \<Rightarrow>
          (case (if gesture_state g = CLUTTER_GESTURE_STATE_POSSIBLE
                 then (case is_near_monitor_edge display g point of
                         Inl e \<Rightarrow> Inl e
                       | Inr near \<Rightarrow>
                           Inr (if \<not> near then edge_set_state g CLUTTER_GESTURE_STATE_RECOGNIZING else g))
                 else Inr g) of
             Inl e \<Rightarrow> Inl e
           | Inr g1 \<Rightarrow>
               if gesture_state g1 = CLUTTER_GESTURE_STATE_RECOGNIZING then
                 (case clutter_gesture_get_point g1 point of
                    None \<Rightarrow> Inl INVALID_POINT
                  | Some p \<Rightarrow>
                      let begin_coords = point_begin_coords_abs p;
                          latest_coords = point_coords_abs p;
                          (distance_x, distance_y) = graphene_point_distance latest_coords begin_coords;
                          g2 = (case side g1 of
                                  ST_SIDE_LEFT \<Rightarrow> g1\<lparr>emitted := emitted g1 @ [PROGRESS distance_x]\<rparr>
                                | ST_SIDE_RIGHT \<Rightarrow> g1\<lparr>emitted := emitted g1 @ [PROGRESS distance_x]\<rparr>
                                | ST_SIDE_TOP \<Rightarrow> g1\<lparr>emitted := emitted g1 @ [PROGRESS distance_y]\<rparr>
                                | ST_SIDE_BOTTOM \<Rightarrow> g1\<lparr>emitted := emitted g1 @ [PROGRESS distance_y]\<rparr>)
                      in
                      (case passes_distance_needed display g2 point of
                         Inl e \<Rightarrow> Inl e
                       | Inr passes \<Rightarrow>
                           Inr (if passes then edge_set_state g2 CLUTTER_GESTURE_STATE_COMPLETED else g2)))
               else Inr g1))"

definition edge_point_ended :: "ShellEdgeDragGesture \<Rightarrow> nat \<Rightarrow> ShellEdgeDragGesture" where
  "edge_point_ended g point = edge_set_state g CLUTTER_GESTURE_STATE_CANCELLED"

text \<open>The setter receives the raw value of the C enum, which a caller can choose freely.\<close>

definition shell_edge_drag_gesture_set_side :: "ShellEdgeDragGesture \<Rightarrow> int \<Rightarrow> ShellEdgeDragGesture" where
  "shell_edge_drag_gesture_set_side g new_side =
     (if \<not> (new_side \<ge> StSide_value ST_SIDE_TOP \<and> new_side \<le> StSide_value ST_SIDE_LEFT) then g
      else g\<lparr>side := StSide_of_value new_side, emitted := emitted g @ [NOTIFY_SIDE]\<rparr>)"

definition shell_edge_drag_gesture_get_side :: "ShellEdgeDragGesture \<Rightarrow> StSide" where
  "shell_edge_drag_gesture_get_side g = side g"

definition shell_edge_drag_gesture_init :: "ShellEdgeDragGesture" where
  "shell_edge_drag_gesture_init =
     \<lparr>gesture_state = CLUTTER_GESTURE_STATE_POSSIBLE, gesture_points = [],
      side = ST_SIDE_TOP, cancel_timeout_point = 0, cancel_timeout_id = 0,
      timeout_sources = [], last_source_id = 0, emitted = []\<rparr>"

section \<open>Dispatch of point events by the gesture class\<close>

text \<open>Modelled from the spec: the dispatch done by the gesture class, which is not in the
  repository.  Callbacks run one at a time in arrival order.  A beginning point is recorded
  with its begin coordinates before \<open>point_began\<close> runs, a moving point has its coordinates
  and latest event updated before \<open>point_moved\<close> runs, and an ending point is dropped after
  \<open>point_ended\<close> has run.  A gesture that has ended receives no new points while old ones are
  still down; once none is left, a fresh point sequence starts a new attempt from the
  initial state.  Events of points that are not tracked are not delivered.\<close>

definition clutter_gesture_add_point ::
  "'a ClutterGesture_scheme \<Rightarrow> nat \<Rightarrow> graphene_point_t \<Rightarrow> ClutterEvent \<Rightarrow> 'a ClutterGesture_scheme" where
  "clutter_gesture_add_point g point coords event =
     g\<lparr>gesture_points := gesture_points g @
          [(point, \<lparr>point_begin_coords_abs = coords, point_coords_abs = coords, point_event = event\<rparr>)]\<rparr>"

definition clutter_gesture_update_point ::
  "'a ClutterGesture_scheme \<Rightarrow> nat \<Rightarrow> graphene_point_t \<Rightarrow> ClutterEvent \<Rightarrow> 'a ClutterGesture_scheme" where
  "clutter_gesture_update_point g point coords event =
     g\<lparr>gesture_points :=
          map (\<lambda>(i, p). if i = point then (i, p\<lparr>point_coords_abs := coords, point_event := event\<rparr>) else (i, p))
              (gesture_points g)\<rparr>"

definition clutter_gesture_remove_point :: "'a ClutterGesture_scheme \<Rightarrow> nat \<Rightarrow> 'a ClutterGesture_scheme" where
  "clutter_gesture_remove_point g point =
     g\<lparr>gesture_points := filter (\<lambda>(i, p). i \<noteq> point) (gesture_points g)\<rparr>"

definition clutter_gesture_new_attempt :: "'a ClutterGesture_scheme \<Rightarrow> 'a ClutterGesture_scheme" where
  "clutter_gesture_new_attempt g =
     (if is_terminal (gesture_state g) \<and> gesture_points g = []
      then g\<lparr>gesture_state := CLUTTER_GESTURE_STATE_POSSIBLE\<rparr> else g)"

datatype dnd_input =
    DND_POINT_BEGAN nat graphene_point_t ClutterEvent
  | DND_POINT_MOVED nat graphene_point_t ClutterEvent
  | DND_POINT_ENDED nat
  | DND_START_DRAG "ClutterEvent option"
  | DND_SET_MANUAL_MODE bool
  | DND_SET_TIMEOUT_THRESHOLD "32 word"

fun is_dnd_point_moved :: "dnd_input \<Rightarrow> bool" where
  "is_dnd_point_moved (DND_POINT_MOVED point coords event) = True"
| "is_dnd_point_moved other = False"

fun dnd_dispatch :: "StHost \<Rightarrow> ShellDndStartGesture \<Rightarrow> dnd_input \<Rightarrow> error + ShellDndStartGesture" where
  "dnd_dispatch h g (DND_POINT_BEGAN point coords event) =
     (let g0 = clutter_gesture_new_attempt g in
      if is_terminal (gesture_state g0) \<or> clutter_gesture_get_point g0 point \<noteq> None then Inr g0
      else dnd_point_began h (clutter_gesture_add_point g0 point coords event) point)"
| "dnd_dispatch h g (DND_POINT_MOVED point coords event) =
     (if clutter_gesture_get_point g point = None then Inr g
      else dnd_point_moved h (clutter_gesture_update_point g point coords event) point)"
| "dnd_dispatch h g (DND_POINT_ENDED point) =
     (if clutter_gesture_get_point g point = None then Inr g
      else Inr (clutter_gesture_remove_point (dnd_point_ended g point) point))"
| "dnd_dispatch h g (DND_START_DRAG start_event) =
     Inr (shell_dnd_start_gesture_start_drag g start_event)"
| "dnd_dispatch h g (DND_SET_MANUAL_MODE new_manual_mode) =
     Inr (shell_dnd_start_gesture_set_manual_mode g new_manual_mode)"
| "dnd_dispatch h g (DND_SET_TIMEOUT_THRESHOLD new_timeout_threshold_ms) =
     Inr (shell_dnd_start_gesture_set_timeout_threshold g new_timeout_threshold_ms)"

fun dnd_run :: "StHost \<Rightarrow> ShellDndStartGesture \<Rightarrow> dnd_input list \<Rightarrow> error + ShellDndStartGesture" where
  "dnd_run h g [] = Inr g"
| "dnd_run h g (i # inputs) =
     (case dnd_dispatch h g i of Inl e \<Rightarrow> Inl e | Inr g' \<Rightarrow> dnd_run h g' inputs)"

datatype edge_input =
    EDGE_POINT_BEGAN nat graphene_point_t ClutterEvent
  | EDGE_POINT_MOVED nat graphene_point_t ClutterEvent
  | EDGE_POINT_ENDED nat
  | EDGE_CANCEL_TIMEOUT
  | EDGE_SET_SIDE int

text \<open>Modelled from the spec: the timer service.  A pending one-shot source calls its
  callback once; the callback's answer \<open>G_SOURCE_REMOVE\<close> makes the main loop drop the
  source.  Nothing is called when no source is pending.\<close>

definition dispatch_cancel_timeout :: "MetaDisplay \<Rightarrow> ShellEdgeDragGesture \<Rightarrow> error + ShellEdgeDragGesture" where
  "dispatch_cancel_timeout display g =
     (case timeout_sources g of
        [] \<Rightarrow> Inr g
      | source_id # others \<Rightarrow>
          (case on_cancel_timeout display g of
             Inl e \<Rightarrow> Inl e
           | Inr g1 \<Rightarrow> Inr (g_source_remove g1 source_id)))"

fun edge_dispatch :: "MetaDisplay \<Rightarrow> ShellEdgeDragGesture \<Rightarrow> edge_input \<Rightarrow> error + ShellEdgeDragGesture" where
  "edge_dispatch display g (EDGE_POINT_BEGAN point coords event) =
     (let g0 = clutter_gesture_new_attempt g in
      if is_terminal (gesture_state g0) \<or> clutter_gesture_get_point g0 point \<noteq> None then Inr g0
      else edge_point_began display (clutter_gesture_add_point g0 point coords event) point)"
| "edge_dispatch display g (EDGE_POINT_MOVED point coords event) =
     (if clutter_gesture_get_point g point = None then Inr g
      else edge_point_moved display (clutter_gesture_update_point g point coords event) point)"
| "edge_dispatch display g (EDGE_POINT_ENDED point) =
     (if clutter_gesture_get_point g point = None then Inr g
      else Inr (clutter_gesture_remove_point (edge_point_ended g point) point))"
| "edge_dispatch display g EDGE_CANCEL_TIMEOUT = dispatch_cancel_timeout display g"
| "edge_dispatch display g (EDGE_SET_SIDE new_side) =
     Inr (shell_edge_drag_gesture_set_side g new_side)"

fun edge_run :: "MetaDisplay \<Rightarrow> ShellEdgeDragGesture \<Rightarrow> edge_input list \<Rightarrow> error + ShellEdgeDragGesture" where
  "edge_run display g [] = Inr g"
| "edge_run display g (i # inputs) =
     (case edge_dispatch display g i of Inl e \<Rightarrow> Inl e | Inr g' \<Rightarrow> edge_run display g' inputs)"

section \<open>Notions used to state the properties\<close>

text \<open>How far a position lies inside the monitor, measured from the configured edge.\<close>

definition distance_from_edge :: "StSide \<Rightarrow> MtkRectangle \<Rightarrow> graphene_point_t \<Rightarrow> real" where
  "distance_from_edge s m c =
     (case s of
        ST_SIDE_LEFT \<Rightarrow> pt_x c - real_of_int (rect_x m)
      | ST_SIDE_RIGHT \<Rightarrow> real_of_int (rect_x m + rect_width m) - pt_x c
      | ST_SIDE_TOP \<Rightarrow> pt_y c - real_of_int (rect_y m)
      | ST_SIDE_BOTTOM \<Rightarrow> real_of_int (rect_y m + rect_height m) - pt_y c)"

text \<open>The displacement since the point began, on the axis of the configured side.\<close>

definition axis_displacement :: "StSide \<Rightarrow> graphene_point_t \<Rightarrow> graphene_point_t \<Rightarrow> real" where
  "axis_displacement s begin_coords coords =
     (case s of
        ST_SIDE_LEFT \<Rightarrow> \<bar>pt_x coords - pt_x begin_coords\<bar>
      | ST_SIDE_RIGHT \<Rightarrow> \<bar>pt_x coords - pt_x begin_coords\<bar>
      | ST_SIDE_TOP \<Rightarrow> \<bar>pt_y coords - pt_y begin_coords\<bar>
      | ST_SIDE_BOTTOM \<Rightarrow> \<bar>pt_y coords - pt_y begin_coords\<bar>)"

text \<open>The state a run ends in, when it ends without a failed assertion.\<close>

definition result_state :: "error + 'a ClutterGesture_scheme \<Rightarrow> ClutterGestureState option" where
  "result_state r = (case r of Inl e \<Rightarrow> None | Inr g \<Rightarrow> Some (gesture_state g))"

text \<open>The drag threshold of the settings, multiplied by the scale factor, and what it
  means for a position to lie beyond it.\<close>

definition scaled_drag_threshold :: "StHost \<Rightarrow> int" where
  "scaled_drag_threshold h = st_settings_drag_threshold h * st_theme_context_scale_factor h"

definition exceeds_scaled_threshold :: "StHost \<Rightarrow> graphene_point_t \<Rightarrow> graphene_point_t \<Rightarrow> bool" where
  "exceeds_scaled_threshold h begin_coords coords =
     (\<bar>pt_x coords - pt_x begin_coords\<bar> > real_of_int (scaled_drag_threshold h) \<or>
      \<bar>pt_y coords - pt_y begin_coords\<bar> > real_of_int (scaled_drag_threshold h))"

text \<open>The event copies the drag-start recognizer owns at a moment, and the invariant of
  its runs: a gesture that has ended owns none, and every copy ever made is either still
  owned or has been freed, once.\<close>

definition held_events :: "ShellDndStartGesture \<Rightarrow> ClutterEvent list" where
  "held_events g =
     (case drag_triggering_event g of None \<Rightarrow> [] | Some e \<Rightarrow> [e]) @
     (case point_begin_event g of None \<Rightarrow> [] | Some e \<Rightarrow> [e])"

definition dnd_invariant :: "ShellDndStartGesture \<Rightarrow> bool" where
  "dnd_invariant g =
     (gesture_state g \<noteq> CLUTTER_GESTURE_STATE_RECOGNIZING \<and>
      (is_terminal (gesture_state g) \<longrightarrow>
         point_begin_event g = None \<and> drag_triggering_event g = None) \<and>
      (gesture_state g = CLUTTER_GESTURE_STATE_POSSIBLE \<longrightarrow>
         drag_triggering_event g = None \<and> length (gesture_points g) \<le> 1 \<and>
         (gesture_points g = [] \<longrightarrow> point_begin_event g = None)) \<and>
      mset (copied_events g) = mset (freed_events g) + mset (held_events g))"

text \<open>The values carried by the \<open>progress\<close> emissions among the outputs, and the two
  invariants of the edge-drag recognizer's runs.\<close>

fun progress_values :: "edge_output list \<Rightarrow> real list" where
  "progress_values [] = []"
| "progress_values (PROGRESS v # outputs) = v # progress_values outputs"
| "progress_values (other # outputs) = progress_values outputs"

definition progress_bounded :: "ShellEdgeDragGesture \<Rightarrow> bool" where
  "progress_bounded g = (\<forall>v\<in>set (progress_values (emitted g)). 0 \<le> v \<and> v \<le> 100)"

definition edge_invariant :: "ShellEdgeDragGesture \<Rightarrow> bool" where
  "edge_invariant g =
     (timeout_sources g = (if cancel_timeout_id g = 0 then [] else [cancel_timeout_id g]) \<and>
      (is_terminal (gesture_state g) \<longrightarrow> cancel_timeout_id g = 0))"

text \<open>A single touch after it has begun, as the inputs that follow: only moves of the point
  \<open>k\<close> and firings of the cancel timer.  Every position resolves to the monitor \<open>m\<close>
  and is displaced by at most 100 pixels from the begin position \<open>b\<close> on the axis of the
  side; the timer fires only while the current position \<open>c\<close> is outside the edge band.\<close>

fun steady_touch ::
  "MetaDisplay \<Rightarrow> StSide \<Rightarrow> MtkRectangle \<Rightarrow> nat \<Rightarrow> graphene_point_t \<Rightarrow> graphene_point_t \<Rightarrow>
   edge_input list \<Rightarrow> bool" where
  "steady_touch display s m k b c [] = True"
| "steady_touch display s m k b c (EDGE_POINT_MOVED point coords event # inputs) =
     (point = k \<and> get_monitor_for_coords display coords = Some m \<and>
      axis_displacement s b coords \<le> 100 \<and> steady_touch display s m k b coords inputs)"
| "steady_touch display s m k b c (EDGE_CANCEL_TIMEOUT # inputs) =
     (\<not> distance_from_edge s m c < 20 \<and> steady_touch display s m k b c inputs)"
| "steady_touch display s m k b c (other # inputs) = False"

text \<open>Some move reaches a position more than 80 pixels inside the monitor.\<close>

fun reaches_drag_distance :: "StSide \<Rightarrow> MtkRectangle \<Rightarrow> edge_input list \<Rightarrow> bool" where
  "reaches_drag_distance s m [] = False"
| "reaches_drag_distance s m (EDGE_POINT_MOVED point coords event # inputs) =
     (distance_from_edge s m coords > 80 \<or> reaches_drag_distance s m inputs)"
| "reaches_drag_distance s m (other # inputs) = reaches_drag_distance s m inputs"

text \<open>The position of the first move that reaches it: the completing move.\<close>

fun completing_move :: "StSide \<Rightarrow> MtkRectangle \<Rightarrow> edge_input list \<Rightarrow> graphene_point_t option" where
  "completing_move s m [] = None"
| "completing_move s m (EDGE_POINT_MOVED point coords event # inputs) =
     (if distance_from_edge s m coords > 80 then Some coords else completing_move s m inputs)"
| "completing_move s m (other # inputs) = completing_move s m inputs"

text \<open>The recognizer follows exactly the point \<open>k\<close>, which began at \<open>b\<close> and is at
  \<open>c\<close>, and the gesture has not ended.\<close>

definition tracking :: "StSide \<Rightarrow> nat \<Rightarrow> graphene_point_t \<Rightarrow> graphene_point_t \<Rightarrow> ShellEdgeDragGesture \<Rightarrow> bool" where
  "tracking s k b c g =
     (side g = s \<and>
      map (\<lambda>(i, p). (i, point_begin_coords_abs p, point_coords_abs p)) (gesture_points g) =
        [(k, b, c)] \<and>
      \<not> is_terminal (gesture_state g) \<and> cancel_timeout_point g = k \<and> edge_invariant g)"

section \<open>Concrete scenes\<close>

text \<open>One monitor of 1920 by 1080 pixels at the origin, a touchscreen event at a given
  time, and a point on the plane.\<close>

definition single_monitor :: MetaDisplay where
  "single_monitor =
     \<lparr>meta_display_get_monitor_index_for_rect =
        (\<lambda>r. if 0 \<le> rect_x r + 1 \<and> rect_x r < 1920 \<and> 0 \<le> rect_y r + 1 \<and> rect_y r < 1080 then 0 else - 1),
      meta_display_get_monitor_geometry =
        (\<lambda>i. \<lparr>rect_x = 0, rect_y = 0, rect_width = 1920, rect_height = 1080\<rparr>)\<rparr>"

definition touch_at :: "32 word \<Rightarrow> ClutterEvent" where
  "touch_at t = \<lparr>event_device_type = CLUTTER_TOUCHSCREEN_DEVICE, event_time = t\<rparr>"

definition at_xy :: "real \<Rightarrow> real \<Rightarrow> graphene_point_t" where
  "at_xy a b = \<lparr>pt_x = a, pt_y = b\<rparr>"

definition default_host :: StHost where
  "default_host = \<lparr>st_settings_drag_threshold = 8, st_theme_context_scale_factor = 1\<rparr>"

text \<open>The geometry of the monitor of \<open>single_monitor\<close>.\<close>

definition full_hd :: MtkRectangle where
  "full_hd = \<lparr>rect_x = 0, rect_y = 0, rect_width = 1920, rect_height = 1080\<rparr>"

text \<open>A single tracked point with index 0.\<close>

definition one_point :: "graphene_point_t \<Rightarrow> graphene_point_t \<Rightarrow> ClutterEvent \<Rightarrow> (nat \<times> GesturePoint) list" where
  "one_point begin_coords coords event =
     [(0, \<lparr>point_begin_coords_abs = begin_coords, point_coords_abs = coords, point_event = event\<rparr>)]"

text \<open>Two touches that are down at the same time.\<close>

definition two_points :: "(nat \<times> GesturePoint) list" where
  "two_points =
     [(0, \<lparr>point_begin_coords_abs = at_xy 5 5, point_coords_abs = at_xy 5 5, point_event = touch_at 10\<rparr>),
      (1, \<lparr>point_begin_coords_abs = at_xy 9 9, point_coords_abs = at_xy 9 9, point_event = touch_at 20\<rparr>)]"

text \<open>A drag-start recognizer in manual mode that tracks one touch.\<close>

definition manual_gesture :: ShellDndStartGesture where
  "manual_gesture =
     shell_dnd_start_gesture_init
       \<lparr>gesture_points := one_point (at_xy 100 100) (at_xy 100 100) (touch_at 1000),
        point_begin_event := Some (touch_at 1000), manual_mode := True,
        copied_events := [touch_at 1000]\<rparr>"

text \<open>A drag-start recognizer in automatic mode after a touch began at time 1000, with a
  timeout threshold of 500 ms.\<close>

definition touch_gesture :: ShellDndStartGesture where
  "touch_gesture =
     shell_dnd_start_gesture_init
       \<lparr>gesture_points := one_point (at_xy 100 100) (at_xy 100 100) (touch_at 1000),
        point_begin_event := Some (touch_at 1000), timeout_threshold_ms := 500,
        copied_events := [touch_at 1000]\<rparr>"

text \<open>An edge-drag recognizer that tracks one touch and has its cancel timer armed.\<close>

definition edge_gesture :: "StSide \<Rightarrow> graphene_point_t \<Rightarrow> graphene_point_t \<Rightarrow> ShellEdgeDragGesture" where
  "edge_gesture s begin_coords coords =
     shell_edge_drag_gesture_init
       \<lparr>gesture_points := one_point begin_coords coords (touch_at 1000), side := s,
        cancel_timeout_id := 1, timeout_sources := [1], last_source_id := 1\<rparr>"

section \<open>Properties of the recognizers\<close>

subsection \<open>Evaluation rules and state requests\<close>

lemmas gesture_defs = clutter_gesture_get_n_points_def clutter_gesture_get_point_def
  transition_allowed_def is_terminal_def

lemmas framework_defs = clutter_gesture_add_point_def clutter_gesture_update_point_def
  clutter_gesture_remove_point_def clutter_gesture_new_attempt_def

text \<open>Rules that evaluate the callbacks on concrete inputs.\<close>

lemmas dnd_eval = dnd_point_began_def dnd_point_moved_def dnd_point_ended_def maybe_start_drag_def
  shell_dnd_start_gesture_start_drag_def dnd_set_state_def dnd_state_changed_def
  clutter_event_copy_def clutter_event_free_def

lemmas edge_eval = edge_point_began_def edge_point_moved_def edge_point_ended_def
  exceeds_cancel_threshold_def is_near_monitor_edge_def passes_distance_needed_def
  get_monitor_for_coords_def graphene_point_distance_def float_to_int_def
  edge_set_state_def edge_state_changed_def g_timeout_add_def g_source_remove_def
  dispatch_cancel_timeout_def on_cancel_timeout_def shell_edge_drag_gesture_set_side_def
  StSide_of_value_def

lemmas scene_defs = single_monitor_def touch_at_def at_xy_def default_host_def one_point_def
  shell_edge_drag_gesture_init_def shell_dnd_start_gesture_init_def

text \<open>Requests on a gesture that has ended are not applied, so the properties below speak
  of gestures that have not ended; the transitions themselves are governed by
  \<open>transition_allowed\<close>.\<close>

lemma set_state_ended:
  "is_terminal (gesture_state g) \<Longrightarrow> dnd_set_state g st = g"
  "is_terminal (gesture_state eg) \<Longrightarrow> edge_set_state eg st = eg"
  by (auto simp add: dnd_set_state_def edge_set_state_def transition_allowed_def is_terminal_def)

lemma dnd_set_state_cancelled:
  "\<not> is_terminal (gesture_state g) \<Longrightarrow>
   gesture_state (dnd_set_state g CLUTTER_GESTURE_STATE_CANCELLED) = CLUTTER_GESTURE_STATE_CANCELLED"
  by (cases "gesture_state g")
     (simp_all add: dnd_set_state_def dnd_state_changed_def clutter_event_free_def gesture_defs Let_def
        split: option.splits)

lemma edge_set_state_terminal:
  "\<not> is_terminal (gesture_state g) \<Longrightarrow> is_terminal st \<Longrightarrow>
   edge_set_state g st =
     g\<lparr>gesture_state := st, emitted := emitted g @ [GESTURE_STATE (gesture_state g) st],
       cancel_timeout_id := 0,
       timeout_sources := (if cancel_timeout_id g \<noteq> 0 then removeAll (cancel_timeout_id g) (timeout_sources g) else timeout_sources g)\<rparr>"
  by (cases "gesture_state g")
     (auto simp add: edge_set_state_def edge_state_changed_def g_source_remove_def gesture_defs)

subsection \<open>A second point cancels\<close>

text \<open>
  Claim C3.  In both recognizers, when a point begins while another one is still active (the
  gesture class then counts more than one point) and the gesture has not ended yet,
  \<open>point_began\<close> moves the gesture to Cancelled at once.
\<close>

theorem second_point_cancels:
  "(1 < clutter_gesture_get_n_points g \<and> \<not> is_terminal (gesture_state g) \<longrightarrow>
      (\<exists>g'. dnd_point_began h g point = Inr g' \<and>
            gesture_state g' = CLUTTER_GESTURE_STATE_CANCELLED)) \<and>
   (1 < clutter_gesture_get_n_points eg \<and> \<not> is_terminal (gesture_state eg) \<longrightarrow>
      (\<exists>eg'. edge_point_began display eg point = Inr eg' \<and>
            gesture_state eg' = CLUTTER_GESTURE_STATE_CANCELLED))"
  by (simp add: dnd_point_began_def edge_point_began_def dnd_set_state_cancelled
        edge_set_state_terminal is_terminal_def)

theorem second_point_cancels_witness:
  "(\<exists>g'. dnd_point_began default_host (shell_dnd_start_gesture_init\<lparr>gesture_points := two_points\<rparr>) 1 = Inr g' \<and>
         gesture_state g' = CLUTTER_GESTURE_STATE_CANCELLED) \<and>
   (\<exists>g'. edge_point_began single_monitor (shell_edge_drag_gesture_init\<lparr>gesture_points := two_points\<rparr>) 1 = Inr g' \<and>
         gesture_state g' = CLUTTER_GESTURE_STATE_CANCELLED)"
  using second_point_cancels [of "shell_dnd_start_gesture_init\<lparr>gesture_points := two_points\<rparr>"
          default_host 1 "shell_edge_drag_gesture_init\<lparr>gesture_points := two_points\<rparr>" single_monitor]
  by (simp add: shell_dnd_start_gesture_init_def shell_edge_drag_gesture_init_def two_points_def
        clutter_gesture_get_n_points_def is_terminal_def)

subsection \<open>The side setter\<close>

text \<open>
  Claim C9.  The side setter leaves the object as it is, with no notification, when the value
  is none of Top, Right, Bottom, Left; for each of these four it stores the side and emits the
  change notification, whatever the side was before (also when it is the same).
\<close>

theorem side_setter:
  "(v \<notin> range StSide_value \<longrightarrow> shell_edge_drag_gesture_set_side g v = g) \<and>
   shell_edge_drag_gesture_set_side g (StSide_value s) =
     g\<lparr>side := s, emitted := emitted g @ [NOTIFY_SIDE]\<rparr>"
proof -
  have "range StSide_value = {0, 1, 2, 3}"
  proof
    show "range StSide_value \<subseteq> {0, 1, 2, 3}"
    proof
      fix y assume "y \<in> range StSide_value"
      then obtain t where "y = StSide_value t" by blast
      then show "y \<in> {0, 1, 2, 3}" by (cases t) simp_all
    qed
    have "StSide_value ST_SIDE_TOP = 0" "StSide_value ST_SIDE_RIGHT = 1"
      "StSide_value ST_SIDE_BOTTOM = 2" "StSide_value ST_SIDE_LEFT = 3" by simp_all
    then show "{0, 1, 2, 3} \<subseteq> range StSide_value"
      by (metis insert_subsetI rangeI empty_subsetI)
  qed
  then have "v \<notin> range StSide_value \<Longrightarrow> \<not> (0 \<le> v \<and> v \<le> 3)"
    by auto
  moreover have "shell_edge_drag_gesture_set_side g (StSide_value s) =
     g\<lparr>side := s, emitted := emitted g @ [NOTIFY_SIDE]\<rparr>"
    by (cases s) (simp_all add: shell_edge_drag_gesture_set_side_def StSide_of_value_def)
  ultimately show ?thesis
    by (simp add: shell_edge_drag_gesture_set_side_def)
qed

theorem side_setter_witness:
  "7 \<notin> range StSide_value \<and>
   shell_edge_drag_gesture_set_side shell_edge_drag_gesture_init 7 = shell_edge_drag_gesture_init \<and>
   shell_edge_drag_gesture_set_side shell_edge_drag_gesture_init (StSide_value ST_SIDE_TOP) =
     shell_edge_drag_gesture_init\<lparr>side := ST_SIDE_TOP, emitted := [NOTIFY_SIDE]\<rparr>"
proof -
  have out: "7 \<notin> range StSide_value"
  proof
    assume "7 \<in> range StSide_value"
    then obtain t where "7 = StSide_value t" by blast
    then show False by (cases t) simp_all
  qed
  show ?thesis
    using out side_setter [of 7 shell_edge_drag_gesture_init ST_SIDE_TOP]
    by (simp add: shell_edge_drag_gesture_init_def)
qed

subsection \<open>Overshoot\<close>

text \<open>
  Claim C6.  On a move whose displacement since begin on the axis of the configured side is
  more than 100 pixels, \<open>point_moved\<close> cancels the gesture; the only output of that move
  is the state change, so no progress is emitted and completion is not checked.
\<close>

theorem overshoot_cancels:
  assumes "clutter_gesture_get_point g point = Some p"
    and "axis_displacement (side g) (point_begin_coords_abs p) (point_coords_abs p) > 100"
    and "\<not> is_terminal (gesture_state g)"
  shows "edge_point_moved display g point =
           Inr (edge_set_state g CLUTTER_GESTURE_STATE_CANCELLED) \<and>
         gesture_state (edge_set_state g CLUTTER_GESTURE_STATE_CANCELLED) = CLUTTER_GESTURE_STATE_CANCELLED \<and>
         emitted (edge_set_state g CLUTTER_GESTURE_STATE_CANCELLED) =
           emitted g @ [GESTURE_STATE (gesture_state g) CLUTTER_GESTURE_STATE_CANCELLED]"
proof -
  have "exceeds_cancel_threshold g point = Inr True"
    using assms(1,2)
    by (cases "side g")
       (simp_all add: exceeds_cancel_threshold_def axis_displacement_def graphene_point_distance_def)
  then show ?thesis
    using assms(3) by (simp add: edge_point_moved_def edge_set_state_terminal is_terminal_def)
qed

theorem overshoot_cancels_witness:
  "edge_point_moved single_monitor
     (shell_edge_drag_gesture_init
        \<lparr>gesture_points := one_point (at_xy 500 10) (at_xy 500 120) (touch_at 50)\<rparr>) 0 =
   Inr (shell_edge_drag_gesture_init
        \<lparr>gesture_state := CLUTTER_GESTURE_STATE_CANCELLED,
         gesture_points := one_point (at_xy 500 10) (at_xy 500 120) (touch_at 50),
         emitted := [GESTURE_STATE CLUTTER_GESTURE_STATE_POSSIBLE CLUTTER_GESTURE_STATE_CANCELLED]\<rparr>)"
  using overshoot_cancels [of "shell_edge_drag_gesture_init
        \<lparr>gesture_points := one_point (at_xy 500 10) (at_xy 500 120) (touch_at 50)\<rparr>" 0
        "\<lparr>point_begin_coords_abs = at_xy 500 10, point_coords_abs = at_xy 500 120, point_event = touch_at 50\<rparr>"
        single_monitor]
  by (simp add: shell_edge_drag_gesture_init_def one_point_def at_xy_def axis_displacement_def
        gesture_defs edge_set_state_def edge_state_changed_def)

subsection \<open>Manual mode\<close>

lemma dnd_moved_manual:
  "manual_mode g \<Longrightarrow> is_dnd_point_moved i \<Longrightarrow>
   \<exists>g'. dnd_dispatch h g i = Inr g' \<and> gesture_state g' = gesture_state g \<and> manual_mode g'"
  by (cases i) (simp_all add: dnd_point_moved_def clutter_gesture_update_point_def)

lemma dnd_moves_manual:
  "manual_mode g \<Longrightarrow> \<forall>i\<in>set inputs. is_dnd_point_moved i \<Longrightarrow>
   \<exists>g'. dnd_run h g inputs = Inr g' \<and> gesture_state g' = gesture_state g \<and> manual_mode g'"
proof (induction inputs arbitrary: g)
  case Nil
  then show ?case by simp
next
  case (Cons i inputs)
  then obtain g1 where g1: "dnd_dispatch h g i = Inr g1" "gesture_state g1 = gesture_state g" "manual_mode g1"
    using dnd_moved_manual [of g i h] by auto
  with Cons.IH [of g1] Cons.prems show ?case by auto
qed

lemma start_drag_completes:
  "clutter_gesture_get_n_points g = 1 \<Longrightarrow> gesture_state g = CLUTTER_GESTURE_STATE_POSSIBLE \<Longrightarrow>
   gesture_state (shell_dnd_start_gesture_start_drag g start_event) = CLUTTER_GESTURE_STATE_COMPLETED"
  by (simp add: shell_dnd_start_gesture_start_drag_def dnd_set_state_def dnd_state_changed_def
        clutter_event_copy_def clutter_event_free_def gesture_defs Let_def split: option.splits)

text \<open>
  Claim C4.  In manual mode \<open>point_moved\<close> changes nothing, so no sequence of moves changes
  the state of the gesture (in particular none completes it).  \<open>start_drag\<close> completes the
  gesture when exactly one point is active and the state is Possible, and leaves the object
  untouched for any other point count or state.
\<close>

theorem manual_mode_start_drag:
  "(manual_mode g \<and> (\<forall>i\<in>set inputs. is_dnd_point_moved i) \<longrightarrow>
      (\<exists>g'. dnd_run h g inputs = Inr g' \<and> gesture_state g' = gesture_state g)) \<and>
   (manual_mode g \<longrightarrow> dnd_point_moved h g point = Inr g) \<and>
   (clutter_gesture_get_n_points g = 1 \<and> gesture_state g = CLUTTER_GESTURE_STATE_POSSIBLE \<longrightarrow>
      gesture_state (shell_dnd_start_gesture_start_drag g start_event) = CLUTTER_GESTURE_STATE_COMPLETED) \<and>
   (clutter_gesture_get_n_points g \<noteq> 1 \<or> gesture_state g \<noteq> CLUTTER_GESTURE_STATE_POSSIBLE \<longrightarrow>
      shell_dnd_start_gesture_start_drag g start_event = g)"
proof -
  have "manual_mode g \<and> (\<forall>i\<in>set inputs. is_dnd_point_moved i) \<longrightarrow>
      (\<exists>g'. dnd_run h g inputs = Inr g' \<and> gesture_state g' = gesture_state g)"
    using dnd_moves_manual [of g inputs h] by blast
  moreover have "manual_mode g \<longrightarrow> dnd_point_moved h g point = Inr g"
    by (simp add: dnd_point_moved_def)
  moreover have "clutter_gesture_get_n_points g \<noteq> 1 \<or> gesture_state g \<noteq> CLUTTER_GESTURE_STATE_POSSIBLE \<longrightarrow>
      shell_dnd_start_gesture_start_drag g start_event = g"
    by (simp add: shell_dnd_start_gesture_start_drag_def)
  ultimately show ?thesis
    using start_drag_completes [of g start_event] by blast
qed

theorem manual_mode_start_drag_witness:
  "result_state (dnd_run default_host manual_gesture
       [DND_POINT_MOVED 0 (at_xy 300 100) (touch_at 3000), DND_POINT_MOVED 0 (at_xy 600 100) (touch_at 9000)])
     = Some CLUTTER_GESTURE_STATE_POSSIBLE \<and>
   dnd_point_moved default_host manual_gesture 0 = Inr manual_gesture \<and>
   gesture_state (shell_dnd_start_gesture_start_drag manual_gesture (Some (touch_at 1500)))
     = CLUTTER_GESTURE_STATE_COMPLETED \<and>
   shell_dnd_start_gesture_start_drag (manual_gesture\<lparr>gesture_points := two_points\<rparr>) None
     = manual_gesture\<lparr>gesture_points := two_points\<rparr> \<and>
   shell_dnd_start_gesture_start_drag (manual_gesture\<lparr>gesture_state := CLUTTER_GESTURE_STATE_CANCELLED\<rparr>) None
     = manual_gesture\<lparr>gesture_state := CLUTTER_GESTURE_STATE_CANCELLED\<rparr>"
proof -
  have m: "manual_mode manual_gesture" "gesture_state manual_gesture = CLUTTER_GESTURE_STATE_POSSIBLE"
    "clutter_gesture_get_n_points manual_gesture = 1"
    by (simp_all add: manual_gesture_def shell_dnd_start_gesture_init_def one_point_def gesture_defs)
  have two: "clutter_gesture_get_n_points (manual_gesture\<lparr>gesture_points := two_points\<rparr>) \<noteq> 1"
    by (simp add: two_points_def gesture_defs)
  show ?thesis
    using m two
      manual_mode_start_drag [of manual_gesture
         "[DND_POINT_MOVED 0 (at_xy 300 100) (touch_at 3000), DND_POINT_MOVED 0 (at_xy 600 100) (touch_at 9000)]"
         default_host 0 "Some (touch_at 1500)"]
      manual_mode_start_drag [of "manual_gesture\<lparr>gesture_points := two_points\<rparr>" "[]" default_host 0 None]
      manual_mode_start_drag [of "manual_gesture\<lparr>gesture_state := CLUTTER_GESTURE_STATE_CANCELLED\<rparr>" "[]" default_host 0 None]
    by (auto simp add: result_state_def)
qed

subsection \<open>The drag threshold and the timeout of touch devices\<close>

lemma map_of_update_point:
  "map_of (map (\<lambda>(i, p). if i = k then (i, f p) else (i, p)) xs) k = map_option f (map_of xs k)"
  by (induction xs) auto

lemma get_point_update:
  "clutter_gesture_get_point (clutter_gesture_update_point g point coords event) point =
     map_option (\<lambda>p. p\<lparr>point_coords_abs := coords, point_event := event\<rparr>) (clutter_gesture_get_point g point)"
  by (simp add: clutter_gesture_get_point_def clutter_gesture_update_point_def map_of_update_point)

lemma get_point_add:
  "clutter_gesture_get_point g point = None \<Longrightarrow>
   clutter_gesture_get_point (clutter_gesture_add_point g point coords event) point =
     Some \<lparr>point_begin_coords_abs = coords, point_coords_abs = coords, point_event = event\<rparr>"
  by (simp add: clutter_gesture_get_point_def clutter_gesture_add_point_def map_add_def)


lemma n_points_update:
  "clutter_gesture_get_n_points (clutter_gesture_update_point g point coords event) =
     clutter_gesture_get_n_points g"
  by (simp add: clutter_gesture_get_n_points_def clutter_gesture_update_point_def)

lemma dnd_moved_ignored:
  assumes "drag_threshold_ignored g" and "is_dnd_point_moved i"
  shows "\<exists>g'. dnd_dispatch h g i = Inr g' \<and> gesture_state g' = gesture_state g \<and>
              drag_threshold_ignored g'"
proof (cases i)
  case (DND_POINT_MOVED point coords event)
  show ?thesis
  proof (cases "clutter_gesture_get_point g point")
    case None
    with DND_POINT_MOVED show ?thesis using assms(1) by simp
  next
    case (Some p)
    let ?g1 = "clutter_gesture_update_point g point coords event"
    have "clutter_gesture_get_point ?g1 point \<noteq> None"
      using Some by (simp add: get_point_update)
    moreover have "drag_threshold_ignored ?g1" "gesture_state ?g1 = gesture_state g"
      using assms(1) by (simp_all add: clutter_gesture_update_point_def)
    ultimately have "dnd_point_moved h ?g1 point = Inr ?g1"
      by (auto simp add: dnd_point_moved_def maybe_start_drag_def)
    with DND_POINT_MOVED Some \<open>drag_threshold_ignored ?g1\<close> \<open>gesture_state ?g1 = gesture_state g\<close>
    show ?thesis by simp
  qed
qed (use assms(2) in simp_all)

lemma dnd_moves_ignored:
  "drag_threshold_ignored g \<Longrightarrow> \<forall>i\<in>set inputs. is_dnd_point_moved i \<Longrightarrow>
   \<exists>g'. dnd_run h g inputs = Inr g' \<and> gesture_state g' = gesture_state g"
proof (induction inputs arbitrary: g)
  case Nil
  then show ?case by simp
next
  case (Cons i inputs)
  then obtain g1 where g1: "dnd_dispatch h g i = Inr g1" "gesture_state g1 = gesture_state g"
      "drag_threshold_ignored g1"
    using dnd_moved_ignored [of g i h] by auto
  with Cons.IH [of g1] Cons.prems show ?case by auto
qed

lemma dnd_touch_move_over_threshold:
  assumes "\<not> manual_mode g" and "gesture_state g = CLUTTER_GESTURE_STATE_POSSIBLE"
    and "clutter_gesture_get_point g point = Some p"
    and "point_begin_event g = Some begin_event"
    and "\<not> drag_threshold_ignored g"
    and "event_device_type event = CLUTTER_TOUCHSCREEN_DEVICE"
    and "exceeds_scaled_threshold h (point_begin_coords_abs p) coords"
  shows "dnd_dispatch h g (DND_POINT_MOVED point coords event) =
           Inr (if event_time event - event_time begin_event > timeout_threshold_ms g
                then shell_dnd_start_gesture_start_drag
                       (clutter_gesture_update_point g point coords event) (Some event)
                else (clutter_gesture_update_point g point coords event)\<lparr>drag_threshold_ignored := True\<rparr>)"
proof -
  let ?g1 = "clutter_gesture_update_point g point coords event"
  have p: "clutter_gesture_get_point ?g1 point =
      Some (p\<lparr>point_coords_abs := coords, point_event := event\<rparr>)"
    using assms(3) by (simp add: get_point_update)
  have f: "\<not> manual_mode ?g1" "gesture_state ?g1 = CLUTTER_GESTURE_STATE_POSSIBLE"
    "point_begin_event ?g1 = Some begin_event" "\<not> drag_threshold_ignored ?g1"
    "timeout_threshold_ms ?g1 = timeout_threshold_ms g"
    using assms by (simp_all add: clutter_gesture_update_point_def)
  have "maybe_start_drag h ?g1 point =
           Inr (if event_time event - event_time begin_event > timeout_threshold_ms g
                then shell_dnd_start_gesture_start_drag ?g1 (Some event)
                else ?g1\<lparr>drag_threshold_ignored := True\<rparr>)"
    using p f assms(6,7)
    by (simp add: maybe_start_drag_def exceeds_scaled_threshold_def scaled_drag_threshold_def Let_def)
  then show ?thesis
    using assms(3) f by (simp add: dnd_point_moved_def)
qed

text \<open>
  Claim C1, as the code has it.  Automatic mode, touch device, one active point, state
  Possible, flag \<open>drag_threshold_ignored\<close> not set.  A move beyond the scaled threshold
  while the elapsed time is not above the timeout threshold does not complete the gesture and
  sets the flag; from then on no sequence of moves changes the state, whatever their times.
  A move beyond the threshold whose elapsed time is above the timeout threshold completes the
  gesture (the flag not being set).
\<close>

theorem touch_over_threshold_before_timeout:
  assumes "\<not> manual_mode g" and "gesture_state g = CLUTTER_GESTURE_STATE_POSSIBLE"
    and "clutter_gesture_get_n_points g = 1"
    and "clutter_gesture_get_point g point = Some p"
    and "point_begin_event g = Some begin_event"
    and "\<not> drag_threshold_ignored g"
    and "event_device_type event = CLUTTER_TOUCHSCREEN_DEVICE"
    and "exceeds_scaled_threshold h (point_begin_coords_abs p) coords"
  shows "(event_time event - event_time begin_event \<le> timeout_threshold_ms g \<longrightarrow>
           (\<exists>g1. dnd_dispatch h g (DND_POINT_MOVED point coords event) = Inr g1 \<and>
                 gesture_state g1 = CLUTTER_GESTURE_STATE_POSSIBLE \<and> drag_threshold_ignored g1 \<and>
                 (\<forall>inputs. (\<forall>i\<in>set inputs. is_dnd_point_moved i) \<longrightarrow>
                    (\<exists>g2. dnd_run h g1 inputs = Inr g2 \<and>
                          gesture_state g2 = CLUTTER_GESTURE_STATE_POSSIBLE)))) \<and>
         (event_time event - event_time begin_event > timeout_threshold_ms g \<longrightarrow>
           (\<exists>g1. dnd_dispatch h g (DND_POINT_MOVED point coords event) = Inr g1 \<and>
                 gesture_state g1 = CLUTTER_GESTURE_STATE_COMPLETED))"
proof (intro conjI impI)
  let ?g1 = "clutter_gesture_update_point g point coords event"
  have f: "gesture_state ?g1 = CLUTTER_GESTURE_STATE_POSSIBLE"
    using assms(2) by (simp add: clutter_gesture_update_point_def)
  note step = dnd_touch_move_over_threshold [OF assms(1,2,4,5,6,7,8)]
  {
    assume early: "event_time event - event_time begin_event \<le> timeout_threshold_ms g"
    let ?g2 = "?g1\<lparr>drag_threshold_ignored := True\<rparr>"
    have d: "dnd_dispatch h g (DND_POINT_MOVED point coords event) = Inr ?g2"
      using step early by (simp add: not_less [symmetric])
    have "\<forall>inputs. (\<forall>i\<in>set inputs. is_dnd_point_moved i) \<longrightarrow>
            (\<exists>g2. dnd_run h ?g2 inputs = Inr g2 \<and> gesture_state g2 = CLUTTER_GESTURE_STATE_POSSIBLE)"
      using dnd_moves_ignored [of ?g2 _ h] f by auto
    with d f
    show "\<exists>g1. dnd_dispatch h g (DND_POINT_MOVED point coords event) = Inr g1 \<and>
                 gesture_state g1 = CLUTTER_GESTURE_STATE_POSSIBLE \<and> drag_threshold_ignored g1 \<and>
                 (\<forall>inputs. (\<forall>i\<in>set inputs. is_dnd_point_moved i) \<longrightarrow>
                    (\<exists>g2. dnd_run h g1 inputs = Inr g2 \<and>
                          gesture_state g2 = CLUTTER_GESTURE_STATE_POSSIBLE))"
      by simp
  }
  {
    assume late: "event_time event - event_time begin_event > timeout_threshold_ms g"
    have "clutter_gesture_get_n_points ?g1 = 1"
      using assms(3) by (simp add: n_points_update)
    then have "gesture_state (shell_dnd_start_gesture_start_drag ?g1 (Some event)) = CLUTTER_GESTURE_STATE_COMPLETED"
      using f by (rule start_drag_completes)
    with step late
    show "\<exists>g1. dnd_dispatch h g (DND_POINT_MOVED point coords event) = Inr g1 \<and>
                 gesture_state g1 = CLUTTER_GESTURE_STATE_COMPLETED"
      by simp
  }
qed

text \<open>
  The claim C1 as written expects the third event below to complete the gesture: the touch
  began at 1000, moved 20 pixels at 1100 (threshold 8, timeout 500 ms) and 40 pixels at 1700.
  The gesture is still Possible.
\<close>

theorem touch_late_move_counterexample:
  "result_state (dnd_run default_host (shell_dnd_start_gesture_init\<lparr>timeout_threshold_ms := 500\<rparr>)
     [DND_POINT_BEGAN 0 (at_xy 100 100) (touch_at 1000),
      DND_POINT_MOVED 0 (at_xy 120 100) (touch_at 1100),
      DND_POINT_MOVED 0 (at_xy 140 100) (touch_at 1700)])
   = Some CLUTTER_GESTURE_STATE_POSSIBLE"
  by (simp add: result_state_def shell_dnd_start_gesture_init_def default_host_def at_xy_def touch_at_def
        dnd_point_began_def dnd_point_moved_def maybe_start_drag_def clutter_event_copy_def
        gesture_defs framework_defs Let_def)

theorem touch_over_threshold_before_timeout_witness:
  "result_state (dnd_run default_host touch_gesture
     [DND_POINT_MOVED 0 (at_xy 120 100) (touch_at 1100), DND_POINT_MOVED 0 (at_xy 140 100) (touch_at 1700)])
     = Some CLUTTER_GESTURE_STATE_POSSIBLE \<and>
   result_state (dnd_dispatch default_host touch_gesture (DND_POINT_MOVED 0 (at_xy 140 100) (touch_at 1700)))
     = Some CLUTTER_GESTURE_STATE_COMPLETED"
proof -
  let ?p = "\<lparr>point_begin_coords_abs = at_xy 100 100, point_coords_abs = at_xy 100 100, point_event = touch_at 1000\<rparr>"
  have h: "\<not> manual_mode touch_gesture" "gesture_state touch_gesture = CLUTTER_GESTURE_STATE_POSSIBLE"
    "clutter_gesture_get_n_points touch_gesture = 1"
    "clutter_gesture_get_point touch_gesture 0 = Some ?p"
    "point_begin_event touch_gesture = Some (touch_at 1000)"
    "\<not> drag_threshold_ignored touch_gesture"
    "timeout_threshold_ms touch_gesture = 500"
    by (simp_all add: touch_gesture_def shell_dnd_start_gesture_init_def one_point_def gesture_defs)
  have e: "event_device_type (touch_at 1100) = CLUTTER_TOUCHSCREEN_DEVICE"
    "event_device_type (touch_at 1700) = CLUTTER_TOUCHSCREEN_DEVICE"
    "exceeds_scaled_threshold default_host (point_begin_coords_abs ?p) (at_xy 120 100)"
    "exceeds_scaled_threshold default_host (point_begin_coords_abs ?p) (at_xy 140 100)"
    "event_time (touch_at 1100) - event_time (touch_at 1000) \<le> (500 :: 32 word)"
    "event_time (touch_at 1700) - event_time (touch_at 1000) > (500 :: 32 word)"
    by (simp_all add: touch_at_def at_xy_def exceeds_scaled_threshold_def scaled_drag_threshold_def default_host_def)
  from touch_over_threshold_before_timeout [OF h(1-6) e(1,3)] e(5) h(7)
  obtain g1 where g1: "dnd_dispatch default_host touch_gesture (DND_POINT_MOVED 0 (at_xy 120 100) (touch_at 1100)) = Inr g1"
    "\<forall>inputs. (\<forall>i\<in>set inputs. is_dnd_point_moved i) \<longrightarrow>
        (\<exists>g2. dnd_run default_host g1 inputs = Inr g2 \<and> gesture_state g2 = CLUTTER_GESTURE_STATE_POSSIBLE)"
    by auto
  have "\<forall>i\<in>set [DND_POINT_MOVED 0 (at_xy 140 100) (touch_at 1700)]. is_dnd_point_moved i"
    by simp
  with g1(2) have "\<exists>g2. dnd_run default_host g1 [DND_POINT_MOVED 0 (at_xy 140 100) (touch_at 1700)] = Inr g2 \<and>
      gesture_state g2 = CLUTTER_GESTURE_STATE_POSSIBLE"
    by blast
  with g1(1) have first: "result_state (dnd_run default_host touch_gesture
     [DND_POINT_MOVED 0 (at_xy 120 100) (touch_at 1100), DND_POINT_MOVED 0 (at_xy 140 100) (touch_at 1700)])
     = Some CLUTTER_GESTURE_STATE_POSSIBLE"
    by (auto simp add: result_state_def)
  from touch_over_threshold_before_timeout [OF h(1-6) e(2,4)] e(6) h(7)
  have "result_state (dnd_dispatch default_host touch_gesture (DND_POINT_MOVED 0 (at_xy 140 100) (touch_at 1700)))
     = Some CLUTTER_GESTURE_STATE_COMPLETED"
    by (auto simp add: result_state_def)
  with first show ?thesis by simp
qed

subsection \<open>The edge band and the cancel timer\<close>

lemma is_near_iff:
  "clutter_gesture_get_point g point = Some p \<Longrightarrow>
   get_monitor_for_coords display (point_coords_abs p) = Some m \<Longrightarrow>
   is_near_monitor_edge display g point = Inr (distance_from_edge (side g) m (point_coords_abs p) < 20)"
  by (cases "side g") (auto simp add: is_near_monitor_edge_def distance_from_edge_def)

lemma edge_began_far:
  assumes "clutter_gesture_get_point g point = Some p"
    and "get_monitor_for_coords display (point_coords_abs p) = Some m"
    and "distance_from_edge (side g) m (point_coords_abs p) > 20"
  shows "edge_point_began display g point = Inr (edge_set_state g CLUTTER_GESTURE_STATE_CANCELLED)"
  using assms by (simp add: edge_point_began_def is_near_iff Let_def)

text \<open>
  Claim C5.  A touch that begins more than 20 pixels from the configured edge of its monitor
  is cancelled by \<open>point_began\<close>: the state becomes Cancelled, the stored timer handle is
  0, no source id is handed out and no timeout source is added.
\<close>

theorem begin_outside_band_cancels:
  assumes "\<not> is_terminal (gesture_state g)"
    and "clutter_gesture_get_point g point = None"
    and "get_monitor_for_coords display coords = Some m"
    and "distance_from_edge (side g) m coords > 20"
  shows "\<exists>g'. edge_dispatch display g (EDGE_POINT_BEGAN point coords event) = Inr g' \<and>
           gesture_state g' = CLUTTER_GESTURE_STATE_CANCELLED \<and>
           emitted g' = emitted g @ [GESTURE_STATE (gesture_state g) CLUTTER_GESTURE_STATE_CANCELLED] \<and>
           cancel_timeout_id g' = 0 \<and>
           last_source_id g' = last_source_id g \<and>
           set (timeout_sources g') \<subseteq> set (timeout_sources g)"
proof -
  let ?g1 = "clutter_gesture_add_point g point coords event"
  have new: "clutter_gesture_new_attempt g = g"
    using assms(1) by (simp add: clutter_gesture_new_attempt_def)
  have p: "clutter_gesture_get_point ?g1 point =
      Some \<lparr>point_begin_coords_abs = coords, point_coords_abs = coords, point_event = event\<rparr>"
    using assms(2) by (rule get_point_add)
  have s: "side ?g1 = side g" "gesture_state ?g1 = gesture_state g" "emitted ?g1 = emitted g"
    "last_source_id ?g1 = last_source_id g" "timeout_sources ?g1 = timeout_sources g"
    by (simp_all add: clutter_gesture_add_point_def)
  have "edge_point_began display ?g1 point = Inr (edge_set_state ?g1 CLUTTER_GESTURE_STATE_CANCELLED)"
    using edge_began_far [OF p, of display m] assms(3,4) s by simp
  moreover have "\<not> is_terminal (gesture_state ?g1)" using assms(1) s by simp
  ultimately show ?thesis
    using new assms(1,2) s
    by (simp add: edge_set_state_terminal is_terminal_def)
qed

theorem begin_outside_band_cancels_witness:
  "edge_dispatch single_monitor shell_edge_drag_gesture_init (EDGE_POINT_BEGAN 0 (at_xy 500 21) (touch_at 1000)) =
   Inr (shell_edge_drag_gesture_init
        \<lparr>gesture_state := CLUTTER_GESTURE_STATE_CANCELLED,
         gesture_points := one_point (at_xy 500 21) (at_xy 500 21) (touch_at 1000),
         emitted := [GESTURE_STATE CLUTTER_GESTURE_STATE_POSSIBLE CLUTTER_GESTURE_STATE_CANCELLED]\<rparr>)"
  using begin_outside_band_cancels [of shell_edge_drag_gesture_init 0 single_monitor "at_xy 500 21"
      "\<lparr>rect_x = 0, rect_y = 0, rect_width = 1920, rect_height = 1080\<rparr>" "touch_at 1000"]
  by (simp add: shell_edge_drag_gesture_init_def one_point_def at_xy_def distance_from_edge_def
        gesture_defs framework_defs edge_set_state_def edge_state_changed_def edge_point_began_def
        is_near_monitor_edge_def get_monitor_for_coords_def single_monitor_def float_to_int_def Let_def)

text \<open>
  Claim C7.  When the armed cancel timer fires, the gesture is cancelled if the watched point
  is still within the edge band and keeps its state otherwise; in both cases the stored handle
  is cleared, the source is gone, and a further dispatch of the timer does nothing.
\<close>

theorem cancel_timeout_fires_once:
  assumes "timeout_sources g = [cancel_timeout_id g]"
    and "cancel_timeout_id g \<noteq> 0"
    and "\<not> is_terminal (gesture_state g)"
    and "clutter_gesture_get_point g (cancel_timeout_point g) = Some p"
    and "get_monitor_for_coords display (point_coords_abs p) = Some m"
  shows "\<exists>g'. dispatch_cancel_timeout display g = Inr g' \<and>
           gesture_state g' =
             (if distance_from_edge (side g) m (point_coords_abs p) < 20
              then CLUTTER_GESTURE_STATE_CANCELLED else gesture_state g) \<and>
           cancel_timeout_id g' = 0 \<and> timeout_sources g' = [] \<and>
           dispatch_cancel_timeout display g' = Inr g'"
  using assms
  by (simp add: dispatch_cancel_timeout_def on_cancel_timeout_def is_near_iff edge_set_state_terminal
        g_source_remove_def is_terminal_def Let_def)

theorem cancel_timeout_fires_once_witness:
  "result_state (dispatch_cancel_timeout single_monitor (edge_gesture ST_SIDE_TOP (at_xy 500 5) (at_xy 500 7)))
     = Some CLUTTER_GESTURE_STATE_CANCELLED \<and>
   dispatch_cancel_timeout single_monitor (edge_gesture ST_SIDE_TOP (at_xy 500 5) (at_xy 500 40))
     = Inr ((edge_gesture ST_SIDE_TOP (at_xy 500 5) (at_xy 500 40))\<lparr>cancel_timeout_id := 0, timeout_sources := []\<rparr>)"
  using cancel_timeout_fires_once [of "edge_gesture ST_SIDE_TOP (at_xy 500 5) (at_xy 500 7)"
      "\<lparr>point_begin_coords_abs = at_xy 500 5, point_coords_abs = at_xy 500 7, point_event = touch_at 1000\<rparr>"
      single_monitor "\<lparr>rect_x = 0, rect_y = 0, rect_width = 1920, rect_height = 1080\<rparr>"]
    cancel_timeout_fires_once [of "edge_gesture ST_SIDE_TOP (at_xy 500 5) (at_xy 500 40)"
      "\<lparr>point_begin_coords_abs = at_xy 500 5, point_coords_abs = at_xy 500 40, point_event = touch_at 1000\<rparr>"
      single_monitor "\<lparr>rect_x = 0, rect_y = 0, rect_width = 1920, rect_height = 1080\<rparr>"]
  by (simp add: result_state_def edge_gesture_def shell_edge_drag_gesture_init_def one_point_def at_xy_def
        distance_from_edge_def gesture_defs edge_set_state_def edge_state_changed_def
        dispatch_cancel_timeout_def on_cancel_timeout_def g_source_remove_def
        is_near_monitor_edge_def get_monitor_for_coords_def single_monitor_def float_to_int_def Let_def)

subsection \<open>Invariants of the drag-start recognizer\<close>

lemma dnd_set_state_eq:
  "dnd_set_state g st =
     (if transition_allowed (gesture_state g) st
      then (if is_terminal st
            then g\<lparr>gesture_state := st, drag_triggering_event := None, point_begin_event := None,
                   freed_events := freed_events g @ held_events g\<rparr>
            else g\<lparr>gesture_state := st\<rparr>)
      else g)"
  by (cases "drag_triggering_event g"; cases "point_begin_event g")
     (simp_all add: dnd_set_state_def dnd_state_changed_def clutter_event_free_def held_events_def
        is_terminal_def Let_def)

lemma dnd_invariant_set_state:
  "dnd_invariant g \<Longrightarrow> is_terminal st \<Longrightarrow> dnd_invariant (dnd_set_state g st)"
  by (auto simp add: dnd_set_state_eq dnd_invariant_def held_events_def is_terminal_def)

lemma dnd_invariant_start_drag:
  "dnd_invariant g \<Longrightarrow> dnd_invariant (shell_dnd_start_gesture_start_drag g start_event)"
proof (cases "clutter_gesture_get_n_points g = 1 \<and> gesture_state g = CLUTTER_GESTURE_STATE_POSSIBLE")
  case False
  then show "dnd_invariant g \<Longrightarrow> ?thesis"
    by (auto simp add: shell_dnd_start_gesture_start_drag_def)
next
  case True
  assume inv: "dnd_invariant g"
  show ?thesis
  proof (cases start_event)
    case None
    with True inv show ?thesis
      by (simp add: shell_dnd_start_gesture_start_drag_def dnd_invariant_set_state is_terminal_def)
  next
    case (Some e)
    let ?g1 = "(clutter_event_copy g e)\<lparr>drag_triggering_event := Some e\<rparr>"
    have "dnd_invariant (dnd_set_state ?g1 CLUTTER_GESTURE_STATE_COMPLETED)"
      using True inv
      by (auto simp add: dnd_set_state_eq dnd_invariant_def held_events_def is_terminal_def
            transition_allowed_def clutter_event_copy_def)
    with True Some show ?thesis
      by (simp add: shell_dnd_start_gesture_start_drag_def)
  qed
qed

lemma dnd_invariant_flag:
  "dnd_invariant g \<Longrightarrow> dnd_invariant (g\<lparr>drag_threshold_ignored := b\<rparr>)"
  by (simp add: dnd_invariant_def held_events_def)

lemma dnd_invariant_maybe_start_drag:
  "dnd_invariant g \<Longrightarrow> maybe_start_drag h g point = Inr g' \<Longrightarrow> dnd_invariant g'"
  by (auto simp add: maybe_start_drag_def Let_def dnd_invariant_start_drag dnd_invariant_flag
        split: option.splits if_splits)

lemma dnd_invariant_update_point:
  "dnd_invariant g \<Longrightarrow> dnd_invariant (clutter_gesture_update_point g point coords event)"
  by (simp add: dnd_invariant_def held_events_def clutter_gesture_update_point_def)

lemma dnd_invariant_point_moved:
  "dnd_invariant g \<Longrightarrow> dnd_point_moved h g point = Inr g' \<Longrightarrow> dnd_invariant g'"
  by (auto simp add: dnd_point_moved_def dnd_invariant_maybe_start_drag split: if_splits)

lemma dnd_invariant_began:
  assumes "dnd_invariant g" and "\<not> is_terminal (gesture_state g)"
    and "dnd_point_began h (clutter_gesture_add_point g point coords event) point = Inr g'"
  shows "dnd_invariant g'"
proof -
  let ?g1 = "clutter_gesture_add_point g point coords event"
  have st: "gesture_state g = CLUTTER_GESTURE_STATE_POSSIBLE"
    using assms(1,2) by (cases "gesture_state g") (simp_all add: dnd_invariant_def is_terminal_def)
  show ?thesis
  proof (cases "gesture_points g = []")
    case False
    then have "clutter_gesture_get_n_points ?g1 > 1"
      by (cases "gesture_points g")
         (simp_all add: clutter_gesture_get_n_points_def clutter_gesture_add_point_def)
    then have "g' = dnd_set_state ?g1 CLUTTER_GESTURE_STATE_CANCELLED"
      using assms(3) by (simp add: dnd_point_began_def)
    moreover have "dnd_invariant (dnd_set_state ?g1 CLUTTER_GESTURE_STATE_CANCELLED)"
      using assms(1) st
      by (auto simp add: dnd_set_state_eq dnd_invariant_def held_events_def is_terminal_def
            transition_allowed_def clutter_gesture_add_point_def)
    ultimately show ?thesis by simp
  next
    case True
    then have n: "\<not> clutter_gesture_get_n_points ?g1 > 1"
      by (simp add: clutter_gesture_get_n_points_def clutter_gesture_add_point_def)
    obtain p where p: "clutter_gesture_get_point ?g1 point = Some p"
      using assms(3) n by (auto simp add: dnd_point_began_def split: option.splits)
    let ?g2 = "(clutter_event_copy ?g1 (point_event p))
                 \<lparr>point_begin_event := Some (point_event p), drag_threshold_ignored := False\<rparr>"
    have inv2: "dnd_invariant ?g2"
      using assms(1) st True
      by (auto simp add: dnd_invariant_def held_events_def clutter_event_copy_def
            clutter_gesture_add_point_def is_terminal_def)
    have "maybe_start_drag h ?g2 point = Inr g' \<or> g' = ?g2"
      using assms(3) n p by (auto simp add: dnd_point_began_def Let_def split: if_splits)
    then show ?thesis
      using inv2 dnd_invariant_maybe_start_drag by blast
  qed
qed

lemma dnd_invariant_new_attempt:
  "dnd_invariant g \<Longrightarrow> dnd_invariant (clutter_gesture_new_attempt g)"
  by (auto simp add: dnd_invariant_def held_events_def clutter_gesture_new_attempt_def is_terminal_def)

lemma dnd_invariant_ended:
  assumes "dnd_invariant g" and "clutter_gesture_get_point g point \<noteq> None"
  shows "dnd_invariant (clutter_gesture_remove_point (dnd_point_ended g point) point)"
proof (cases "gesture_state g = CLUTTER_GESTURE_STATE_POSSIBLE")
  case True
  have "gesture_points g \<noteq> []"
    using assms(2) by (auto simp add: clutter_gesture_get_point_def)
  with True assms(1) have "clutter_gesture_get_n_points g = 1"
    by (cases "gesture_points g") (auto simp add: dnd_invariant_def clutter_gesture_get_n_points_def)
  with True have "dnd_point_ended g point = dnd_set_state g CLUTTER_GESTURE_STATE_CANCELLED"
    by (simp add: dnd_point_ended_def)
  with assms(1) True show ?thesis
    by (auto simp add: dnd_set_state_eq dnd_invariant_def held_events_def is_terminal_def
          transition_allowed_def clutter_gesture_remove_point_def)
next
  case False
  then have "dnd_point_ended g point = g"
    by (simp add: dnd_point_ended_def)
  with assms(1) False show ?thesis
    by (auto simp add: dnd_invariant_def held_events_def clutter_gesture_remove_point_def)
qed

lemma dnd_invariant_set_manual_mode:
  "dnd_invariant g \<Longrightarrow> dnd_invariant (shell_dnd_start_gesture_set_manual_mode g b)"
  by (simp add: shell_dnd_start_gesture_set_manual_mode_def dnd_invariant_def held_events_def)

lemma dnd_invariant_set_timeout_threshold:
  "dnd_invariant g \<Longrightarrow> dnd_invariant (shell_dnd_start_gesture_set_timeout_threshold g t)"
  by (simp add: shell_dnd_start_gesture_set_timeout_threshold_def dnd_invariant_def held_events_def)

lemma dnd_invariant_dispatch:
  assumes "dnd_invariant g" and "dnd_dispatch h g i = Inr g'"
  shows "dnd_invariant g'"
proof (cases i)
  case (DND_POINT_BEGAN point coords event)
  let ?g0 = "clutter_gesture_new_attempt g"
  have inv0: "dnd_invariant ?g0" using assms(1) by (rule dnd_invariant_new_attempt)
  show ?thesis
  proof (cases "is_terminal (gesture_state ?g0) \<or> clutter_gesture_get_point ?g0 point \<noteq> None")
    case True
    with DND_POINT_BEGAN assms(2) inv0 show ?thesis by (auto simp add: Let_def)
  next
    case False
    with DND_POINT_BEGAN assms(2)
    have "dnd_point_began h (clutter_gesture_add_point ?g0 point coords event) point = Inr g'"
      by (simp add: Let_def)
    with inv0 False show ?thesis using dnd_invariant_began by blast
  qed
next
  case (DND_POINT_MOVED point coords event)
  show ?thesis
  proof (cases "clutter_gesture_get_point g point = None")
    case True
    with DND_POINT_MOVED assms show ?thesis by simp
  next
    case False
    with DND_POINT_MOVED assms(2)
    have "dnd_point_moved h (clutter_gesture_update_point g point coords event) point = Inr g'"
      by simp
    then show ?thesis
      using dnd_invariant_update_point [OF assms(1)] by (rule dnd_invariant_point_moved [rotated])
  qed
next
  case (DND_POINT_ENDED point)
  with assms show ?thesis
    using dnd_invariant_ended by (auto split: if_splits)
next
  case (DND_START_DRAG start_event)
  with assms show ?thesis using dnd_invariant_start_drag by auto
next
  case (DND_SET_MANUAL_MODE b)
  with assms show ?thesis using dnd_invariant_set_manual_mode by auto
next
  case (DND_SET_TIMEOUT_THRESHOLD t)
  with assms show ?thesis using dnd_invariant_set_timeout_threshold by auto
qed

lemma dnd_invariant_run:
  "dnd_invariant g \<Longrightarrow> dnd_run h g inputs = Inr g' \<Longrightarrow> dnd_invariant g'"
proof (induction inputs arbitrary: g)
  case Nil
  then show ?case by simp
next
  case (Cons i inputs)
  from Cons.prems(2) obtain g1 where g1: "dnd_dispatch h g i = Inr g1" "dnd_run h g1 inputs = Inr g'"
    by (auto split: sum.splits)
  from Cons.prems(1) g1(1) have "dnd_invariant g1" by (rule dnd_invariant_dispatch)
  then show ?case using g1(2) by (rule Cons.IH)
qed

lemma dnd_invariant_init: "dnd_invariant shell_dnd_start_gesture_init"
  by (simp add: dnd_invariant_def shell_dnd_start_gesture_init_def held_events_def is_terminal_def)

subsection \<open>Invariants of the edge-drag recognizer\<close>

lemma progress_values_append:
  "progress_values (xs @ ys) = progress_values xs @ progress_values ys"
  by (induction xs rule: progress_values.induct) simp_all

lemma edge_set_state_eq:
  "edge_set_state g st =
     (if transition_allowed (gesture_state g) st
      then g\<lparr>gesture_state := st,
             emitted := emitted g @ [GESTURE_STATE (gesture_state g) st],
             cancel_timeout_id := (if is_terminal st then 0 else cancel_timeout_id g),
             timeout_sources :=
               (if is_terminal st \<and> cancel_timeout_id g \<noteq> 0
                then removeAll (cancel_timeout_id g) (timeout_sources g) else timeout_sources g)\<rparr>
      else g)"
  by (simp add: edge_set_state_def edge_state_changed_def g_source_remove_def is_terminal_def)

lemma edge_set_state_same [simp]:
  "gesture_points (edge_set_state g st) = gesture_points g"
  "side (edge_set_state g st) = side g"
  "cancel_timeout_point (edge_set_state g st) = cancel_timeout_point g"
  "last_source_id (edge_set_state g st) = last_source_id g"
  by (simp_all add: edge_set_state_eq)

lemma exceeds_iff:
  "clutter_gesture_get_point g point = Some p \<Longrightarrow>
   exceeds_cancel_threshold g point =
     Inr (axis_displacement (side g) (point_begin_coords_abs p) (point_coords_abs p) > 100)"
  by (cases "side g")
     (simp_all add: exceeds_cancel_threshold_def axis_displacement_def graphene_point_distance_def)

lemma emit_progress_eq:
  "(case s of
      ST_SIDE_TOP \<Rightarrow> g\<lparr>emitted := emitted g @ [PROGRESS (snd (graphene_point_distance c b))]\<rparr>
    | ST_SIDE_RIGHT \<Rightarrow> g\<lparr>emitted := emitted g @ [PROGRESS (fst (graphene_point_distance c b))]\<rparr>
    | ST_SIDE_BOTTOM \<Rightarrow> g\<lparr>emitted := emitted g @ [PROGRESS (snd (graphene_point_distance c b))]\<rparr>
    | ST_SIDE_LEFT \<Rightarrow> g\<lparr>emitted := emitted g @ [PROGRESS (fst (graphene_point_distance c b))]\<rparr>) =
   g\<lparr>emitted := emitted g @ [PROGRESS (axis_displacement s b c)]\<rparr>"
  by (cases s) (simp_all add: axis_displacement_def graphene_point_distance_def)

text \<open>What a move can do, whenever it returns.\<close>

lemma edge_point_moved_cases:
  assumes "edge_point_moved display g point = Inr g'"
  obtains (cancel) p where "clutter_gesture_get_point g point = Some p"
      "axis_displacement (side g) (point_begin_coords_abs p) (point_coords_abs p) > 100"
      "g' = edge_set_state g CLUTTER_GESTURE_STATE_CANCELLED"
  | (idle) g1 where "g1 = g \<or> g1 = edge_set_state g CLUTTER_GESTURE_STATE_RECOGNIZING"
      "gesture_state g1 \<noteq> CLUTTER_GESTURE_STATE_RECOGNIZING" "g' = g1"
  | (progress) p g1 g2 where "clutter_gesture_get_point g point = Some p"
      "axis_displacement (side g) (point_begin_coords_abs p) (point_coords_abs p) \<le> 100"
      "g1 = g \<or> g1 = edge_set_state g CLUTTER_GESTURE_STATE_RECOGNIZING"
      "gesture_state g1 = CLUTTER_GESTURE_STATE_RECOGNIZING"
      "g2 = g1\<lparr>emitted := emitted g1 @
               [PROGRESS (axis_displacement (side g) (point_begin_coords_abs p) (point_coords_abs p))]\<rparr>"
      "g' = g2 \<or> g' = edge_set_state g2 CLUTTER_GESTURE_STATE_COMPLETED"
proof -
  obtain p where p: "clutter_gesture_get_point g point = Some p"
    using assms by (cases "clutter_gesture_get_point g point")
      (simp_all add: edge_point_moved_def exceeds_cancel_threshold_def)
  let ?d = "axis_displacement (side g) (point_begin_coords_abs p) (point_coords_abs p)"
  show thesis
  proof (cases "?d > 100")
    case True
    then have "g' = edge_set_state g CLUTTER_GESTURE_STATE_CANCELLED"
      using assms p by (simp add: edge_point_moved_def exceeds_iff)
    with p True show thesis by (rule cancel)
  next
    case False
    define mid where "mid =
      (if gesture_state g = CLUTTER_GESTURE_STATE_POSSIBLE
       then (case is_near_monitor_edge display g point of
               Inl e \<Rightarrow> Inl e
             | Inr near \<Rightarrow>
                 Inr (if \<not> near then edge_set_state g CLUTTER_GESTURE_STATE_RECOGNIZING else g))
       else Inr g)"
    have unfold: "edge_point_moved display g point =
      (case mid of
         Inl e \<Rightarrow> Inl e
       | Inr g1 \<Rightarrow>
           if gesture_state g1 = CLUTTER_GESTURE_STATE_RECOGNIZING then
             (case clutter_gesture_get_point g1 point of
                None \<Rightarrow> Inl INVALID_POINT
              | Some q \<Rightarrow>
                  (case passes_distance_needed display
                          (g1\<lparr>emitted := emitted g1 @
                             [PROGRESS (axis_displacement (side g1) (point_begin_coords_abs q) (point_coords_abs q))]\<rparr>)
                          point of
                     Inl e \<Rightarrow> Inl e
                   | Inr passes \<Rightarrow>
                       Inr (if passes
                            then edge_set_state
                                   (g1\<lparr>emitted := emitted g1 @
                                      [PROGRESS (axis_displacement (side g1) (point_begin_coords_abs q) (point_coords_abs q))]\<rparr>)
                                   CLUTTER_GESTURE_STATE_COMPLETED
                            else g1\<lparr>emitted := emitted g1 @
                                      [PROGRESS (axis_displacement (side g1) (point_begin_coords_abs q) (point_coords_abs q))]\<rparr>)))
           else Inr g1)"
      using False p
      by (simp add: edge_point_moved_def exceeds_iff mid_def Let_def split_def emit_progress_eq
            cong: sum.case_cong option.case_cong if_cong)
    obtain g1 where g1: "mid = Inr g1"
      using assms unfolding unfold by (cases mid) simp_all
    have g1_cases: "g1 = g \<or> g1 = edge_set_state g CLUTTER_GESTURE_STATE_RECOGNIZING"
      using g1 unfolding mid_def by (auto split: if_splits sum.splits)
    then have same: "clutter_gesture_get_point g1 point = Some p" "side g1 = side g"
      using p by (auto simp add: clutter_gesture_get_point_def)
    show thesis
    proof (cases "gesture_state g1 = CLUTTER_GESTURE_STATE_RECOGNIZING")
      case False
      then have "g' = g1" using assms g1 unfolding unfold by simp
      with g1_cases False show thesis by (rule idle)
    next
      case True
      let ?g2 = "g1\<lparr>emitted := emitted g1 @ [PROGRESS ?d]\<rparr>"
      have "g' = ?g2 \<or> g' = edge_set_state ?g2 CLUTTER_GESTURE_STATE_COMPLETED"
        using assms g1 True same unfolding unfold by (auto split: sum.splits if_splits)
      with p \<open>\<not> ?d > 100\<close> g1_cases True show thesis
        by (intro progress [of p g1 ?g2]) simp_all
    qed
  qed
qed


lemma progress_values_set_state:
  "progress_values (emitted (edge_set_state g st)) = progress_values (emitted g)"
  by (simp add: edge_set_state_eq progress_values_append)

lemma progress_bounded_set_state:
  "progress_bounded g \<Longrightarrow> progress_bounded (edge_set_state g st)"
  by (simp add: progress_bounded_def progress_values_set_state)

lemma progress_bounded_point_moved:
  assumes "progress_bounded g" and "edge_point_moved display g point = Inr g'"
  shows "progress_bounded g'"
  using assms(2)
proof (cases rule: edge_point_moved_cases)
  case (cancel p)
  with assms(1) show ?thesis by (simp add: progress_bounded_set_state)
next
  case (idle g1)
  with assms(1) show ?thesis by (auto simp add: progress_bounded_set_state)
next
  case (progress p g1 g2)
  have "progress_bounded g1"
    using progress(3) assms(1) by (auto simp add: progress_bounded_set_state)
  moreover have "0 \<le> axis_displacement (side g) (point_begin_coords_abs p) (point_coords_abs p)"
    by (cases "side g") (simp_all add: axis_displacement_def)
  ultimately have "progress_bounded g2"
    using progress(2,5) by (simp add: progress_bounded_def progress_values_append)
  with progress(6) show ?thesis by (auto simp add: progress_bounded_set_state)
qed

lemma progress_bounded_point_began:
  "progress_bounded g \<Longrightarrow> edge_point_began display g point = Inr g' \<Longrightarrow> progress_bounded g'"
  by (auto simp add: edge_point_began_def Let_def g_timeout_add_def progress_values_set_state
        progress_bounded_def split: sum.splits if_splits)

lemma progress_bounded_timeout:
  "progress_bounded g \<Longrightarrow> dispatch_cancel_timeout display g = Inr g' \<Longrightarrow> progress_bounded g'"
  by (auto simp add: dispatch_cancel_timeout_def on_cancel_timeout_def g_source_remove_def Let_def
        progress_bounded_def progress_values_set_state split: list.splits sum.splits if_splits)

lemma progress_bounded_frame:
  "emitted g' = emitted g \<Longrightarrow> progress_bounded g' = progress_bounded g"
  by (simp add: progress_bounded_def)

lemma progress_bounded_dispatch:
  assumes "progress_bounded g" and "edge_dispatch display g i = Inr g'"
  shows "progress_bounded g'"
proof (cases i)
  case (EDGE_POINT_BEGAN point coords event)
  let ?g0 = "clutter_gesture_new_attempt g"
  have b0: "progress_bounded ?g0"
    using assms(1) by (simp add: progress_bounded_def clutter_gesture_new_attempt_def)
  then have b1: "progress_bounded (clutter_gesture_add_point ?g0 point coords event)"
    by (simp add: progress_bounded_def clutter_gesture_add_point_def)
  show ?thesis
  proof (cases "is_terminal (gesture_state ?g0) \<or> clutter_gesture_get_point ?g0 point \<noteq> None")
    case True
    with EDGE_POINT_BEGAN assms(2) b0 show ?thesis by (auto simp add: Let_def)
  next
    case False
    with EDGE_POINT_BEGAN assms(2)
    have "edge_point_began display (clutter_gesture_add_point ?g0 point coords event) point = Inr g'"
      by (simp add: Let_def)
    with b1 show ?thesis by (rule progress_bounded_point_began)
  qed
next
  case (EDGE_POINT_MOVED point coords event)
  show ?thesis
  proof (cases "clutter_gesture_get_point g point = None")
    case True
    with EDGE_POINT_MOVED assms show ?thesis by simp
  next
    case False
    with EDGE_POINT_MOVED assms(2)
    have "edge_point_moved display (clutter_gesture_update_point g point coords event) point = Inr g'"
      by simp
    moreover have "progress_bounded (clutter_gesture_update_point g point coords event)"
      using assms(1) by (simp add: progress_bounded_def clutter_gesture_update_point_def)
    ultimately show ?thesis by (rule progress_bounded_point_moved [rotated])
  qed
next
  case (EDGE_POINT_ENDED point)
  have "progress_bounded (clutter_gesture_remove_point (edge_point_ended g point) point)"
    using progress_bounded_set_state [OF assms(1), of CLUTTER_GESTURE_STATE_CANCELLED]
    by (simp add: progress_bounded_def clutter_gesture_remove_point_def edge_point_ended_def)
  with EDGE_POINT_ENDED assms show ?thesis by (auto split: if_splits)
next
  case EDGE_CANCEL_TIMEOUT
  with assms show ?thesis using progress_bounded_timeout by simp
next
  case (EDGE_SET_SIDE new_side)
  have "progress_bounded (shell_edge_drag_gesture_set_side g new_side)"
    using assms(1)
    by (simp add: shell_edge_drag_gesture_set_side_def progress_bounded_def progress_values_append)
  with EDGE_SET_SIDE assms(2) show ?thesis by auto
qed

lemma progress_bounded_run:
  "progress_bounded g \<Longrightarrow> edge_run display g inputs = Inr g' \<Longrightarrow> progress_bounded g'"
proof (induction inputs arbitrary: g)
  case Nil
  then show ?case by simp
next
  case (Cons i inputs)
  from Cons.prems(2) obtain g1 where g1: "edge_dispatch display g i = Inr g1"
      "edge_run display g1 inputs = Inr g'"
    by (auto split: sum.splits)
  from Cons.prems(1) g1(1) have "progress_bounded g1" by (rule progress_bounded_dispatch)
  then show ?case using g1(2) by (rule Cons.IH)
qed

text \<open>
  Claim C10.  Every value carried by a progress emission lies between 0 and 100: whatever the
  inputs of a run, if the values emitted before it are within these bounds, so are the values
  emitted by the end of it.  A move emits only after the overshoot test has found the same
  displacement not to exceed 100.
\<close>

theorem progress_at_most_cancel_threshold:
  assumes "\<forall>v\<in>set (progress_values (emitted g)). 0 \<le> v \<and> v \<le> 100"
    and "edge_run display g inputs = Inr g'"
  shows "\<forall>v\<in>set (progress_values (emitted g')). 0 \<le> v \<and> v \<le> 100"
  using progress_bounded_run [of g display inputs g'] assms
  by (simp add: progress_bounded_def)

theorem progress_at_most_cancel_threshold_witness:
  "edge_run single_monitor shell_edge_drag_gesture_init
     [EDGE_SET_SIDE 3, EDGE_POINT_BEGAN 0 (at_xy 19 500) (touch_at 1000),
      EDGE_POINT_MOVED 0 (at_xy 81 500) (touch_at 1100)] =
     Inr (shell_edge_drag_gesture_init
           \<lparr>gesture_state := CLUTTER_GESTURE_STATE_COMPLETED,
            gesture_points := one_point (at_xy 19 500) (at_xy 81 500) (touch_at 1100),
            side := ST_SIDE_LEFT, last_source_id := 1,
            emitted := [NOTIFY_SIDE,
                        GESTURE_STATE CLUTTER_GESTURE_STATE_POSSIBLE CLUTTER_GESTURE_STATE_RECOGNIZING,
                        PROGRESS 62,
                        GESTURE_STATE CLUTTER_GESTURE_STATE_RECOGNIZING CLUTTER_GESTURE_STATE_COMPLETED]\<rparr>) \<and>
   progress_values [NOTIFY_SIDE,
                    GESTURE_STATE CLUTTER_GESTURE_STATE_POSSIBLE CLUTTER_GESTURE_STATE_RECOGNIZING,
                    PROGRESS 62,
                    GESTURE_STATE CLUTTER_GESTURE_STATE_RECOGNIZING CLUTTER_GESTURE_STATE_COMPLETED] = [62] \<and>
   (62 :: real) \<le> 100"
  using progress_at_most_cancel_threshold
    [of shell_edge_drag_gesture_init single_monitor
        "[EDGE_SET_SIDE 3, EDGE_POINT_BEGAN 0 (at_xy 19 500) (touch_at 1000),
          EDGE_POINT_MOVED 0 (at_xy 81 500) (touch_at 1100)]"
        "shell_edge_drag_gesture_init
           \<lparr>gesture_state := CLUTTER_GESTURE_STATE_COMPLETED,
            gesture_points := one_point (at_xy 19 500) (at_xy 81 500) (touch_at 1100),
            side := ST_SIDE_LEFT, last_source_id := 1,
            emitted := [NOTIFY_SIDE,
                        GESTURE_STATE CLUTTER_GESTURE_STATE_POSSIBLE CLUTTER_GESTURE_STATE_RECOGNIZING,
                        PROGRESS 62,
                        GESTURE_STATE CLUTTER_GESTURE_STATE_RECOGNIZING CLUTTER_GESTURE_STATE_COMPLETED]\<rparr>"]
  by (simp add: edge_eval scene_defs gesture_defs framework_defs Let_def)

lemma edge_invariant_set_state:
  "edge_invariant g \<Longrightarrow> edge_invariant (edge_set_state g st)"
  by (cases "gesture_state g"; cases st)
     (simp_all add: edge_invariant_def edge_set_state_eq is_terminal_def transition_allowed_def)

lemma edge_invariant_point_moved:
  assumes "edge_invariant g" and "edge_point_moved display g point = Inr g'"
  shows "edge_invariant g'"
  using assms(2)
proof (cases rule: edge_point_moved_cases)
  case (cancel p)
  with assms(1) show ?thesis by (simp add: edge_invariant_set_state)
next
  case (idle g1)
  with assms(1) show ?thesis by (auto simp add: edge_invariant_set_state)
next
  case (progress p g1 g2)
  have "edge_invariant g1"
    using progress(3) assms(1) by (auto simp add: edge_invariant_set_state)
  then have "edge_invariant g2"
    using progress(5) by (simp add: edge_invariant_def)
  with progress(6) show ?thesis by (auto simp add: edge_invariant_set_state)
qed

lemma edge_invariant_point_began:
  "edge_invariant g \<Longrightarrow> \<not> is_terminal (gesture_state g) \<Longrightarrow>
   edge_point_began display g point = Inr g' \<Longrightarrow> edge_invariant g'"
  using edge_invariant_set_state [of g CLUTTER_GESTURE_STATE_CANCELLED]
  by (auto simp add: edge_point_began_def Let_def g_timeout_add_def edge_invariant_def
        split: sum.splits if_splits)

lemma edge_invariant_timeout:
  assumes "edge_invariant g" and "dispatch_cancel_timeout display g = Inr g'"
  shows "edge_invariant g'"
proof (cases "timeout_sources g")
  case Nil
  with assms show ?thesis by (simp add: dispatch_cancel_timeout_def)
next
  case (Cons source_id others)
  with assms(1) have src: "cancel_timeout_id g = source_id" "others = []" "source_id \<noteq> 0"
    by (auto simp add: edge_invariant_def split: if_splits)
  from assms(2) Cons obtain near g1 where
    g1: "g1 = (if near then edge_set_state g CLUTTER_GESTURE_STATE_CANCELLED else g)"
      "g' = g_source_remove (g1\<lparr>cancel_timeout_id := 0\<rparr>) source_id"
    by (auto simp add: dispatch_cancel_timeout_def on_cancel_timeout_def Let_def split: sum.splits)
  have "edge_invariant g1"
    using g1(1) assms(1) by (simp add: edge_invariant_set_state)
  moreover have "timeout_sources g1 = [] \<or> timeout_sources g1 = [source_id]"
    using g1(1) Cons src by (auto simp add: edge_set_state_eq)
  ultimately show ?thesis
    using g1(2) by (auto simp add: edge_invariant_def g_source_remove_def split: if_splits)
qed

lemma edge_invariant_dispatch:
  assumes "edge_invariant g" and "edge_dispatch display g i = Inr g'"
  shows "edge_invariant g'"
proof (cases i)
  case (EDGE_POINT_BEGAN point coords event)
  let ?g0 = "clutter_gesture_new_attempt g"
  have b0: "edge_invariant ?g0"
    using assms(1) by (auto simp add: edge_invariant_def clutter_gesture_new_attempt_def is_terminal_def)
  then have b1: "edge_invariant (clutter_gesture_add_point ?g0 point coords event)"
    by (auto simp add: edge_invariant_def clutter_gesture_add_point_def)
  show ?thesis
  proof (cases "is_terminal (gesture_state ?g0) \<or> clutter_gesture_get_point ?g0 point \<noteq> None")
    case True
    with EDGE_POINT_BEGAN assms(2) b0 show ?thesis by (auto simp add: Let_def)
  next
    case False
    with EDGE_POINT_BEGAN assms(2)
    have "edge_point_began display (clutter_gesture_add_point ?g0 point coords event) point = Inr g'"
      by (simp add: Let_def)
    moreover have "\<not> is_terminal (gesture_state (clutter_gesture_add_point ?g0 point coords event))"
      using False by (simp add: clutter_gesture_add_point_def)
    ultimately show ?thesis using b1 edge_invariant_point_began by blast
  qed
next
  case (EDGE_POINT_MOVED point coords event)
  show ?thesis
  proof (cases "clutter_gesture_get_point g point = None")
    case True
    with EDGE_POINT_MOVED assms show ?thesis by simp
  next
    case False
    with EDGE_POINT_MOVED assms(2)
    have "edge_point_moved display (clutter_gesture_update_point g point coords event) point = Inr g'"
      by simp
    moreover have "edge_invariant (clutter_gesture_update_point g point coords event)"
      using assms(1) by (auto simp add: edge_invariant_def clutter_gesture_update_point_def)
    ultimately show ?thesis by (rule edge_invariant_point_moved [rotated])
  qed
next
  case (EDGE_POINT_ENDED point)
  have "edge_invariant (clutter_gesture_remove_point (edge_point_ended g point) point)"
    using edge_invariant_set_state [OF assms(1), of CLUTTER_GESTURE_STATE_CANCELLED]
    by (auto simp add: edge_invariant_def clutter_gesture_remove_point_def edge_point_ended_def)
  with EDGE_POINT_ENDED assms show ?thesis by (auto split: if_splits)
next
  case EDGE_CANCEL_TIMEOUT
  with assms show ?thesis using edge_invariant_timeout by simp
next
  case (EDGE_SET_SIDE new_side)
  have "edge_invariant (shell_edge_drag_gesture_set_side g new_side)"
    using assms(1) by (auto simp add: shell_edge_drag_gesture_set_side_def edge_invariant_def)
  with EDGE_SET_SIDE assms(2) show ?thesis by auto
qed

lemma edge_invariant_run:
  "edge_invariant g \<Longrightarrow> edge_run display g inputs = Inr g' \<Longrightarrow> edge_invariant g'"
proof (induction inputs arbitrary: g)
  case Nil
  then show ?case by simp
next
  case (Cons i inputs)
  from Cons.prems(2) obtain g1 where g1: "edge_dispatch display g i = Inr g1"
      "edge_run display g1 inputs = Inr g'"
    by (auto split: sum.splits)
  from Cons.prems(1) g1(1) have "edge_invariant g1" by (rule edge_invariant_dispatch)
  then show ?case using g1(2) by (rule Cons.IH)
qed

lemma edge_invariant_init: "edge_invariant shell_edge_drag_gesture_init"
  by (auto simp add: edge_invariant_def shell_edge_drag_gesture_init_def)

subsection \<open>Resources at the end of a gesture\<close>

text \<open>
  Claim C8.  For every run of the drag-start recognizer from its initial state: once the
  gesture is Cancelled or Completed both event accessors return nothing, and the copies made
  are exactly the copies freed plus the copies still owned, so each copy is freed once.
  Every applied transition to Cancelled or Completed frees exactly the copies owned at that
  moment.  For every run of the edge-drag recognizer from its initial state: at most one
  timeout source is pending, and none is pending and the handle is 0 once the gesture is
  Cancelled or Completed.  Every applied transition to Cancelled or Completed clears the
  handle and removes its source.
\<close>

theorem terminal_transitions_release:
  "(dnd_run h shell_dnd_start_gesture_init inputs = Inr g \<longrightarrow>
      (is_terminal (gesture_state g) \<longrightarrow>
         shell_dnd_start_gesture_get_point_begin_event g = None \<and>
         shell_dnd_start_gesture_get_drag_triggering_event g = None) \<and>
      mset (copied_events g) = mset (freed_events g) + mset (held_events g)) \<and>
   (is_terminal st \<and> transition_allowed (gesture_state g0) st \<longrightarrow>
      shell_dnd_start_gesture_get_point_begin_event (dnd_set_state g0 st) = None \<and>
      shell_dnd_start_gesture_get_drag_triggering_event (dnd_set_state g0 st) = None \<and>
      freed_events (dnd_set_state g0 st) = freed_events g0 @ held_events g0) \<and>
   (edge_run display shell_edge_drag_gesture_init einputs = Inr eg \<longrightarrow>
      length (timeout_sources eg) \<le> 1 \<and>
      (is_terminal (gesture_state eg) \<longrightarrow> cancel_timeout_id eg = 0 \<and> timeout_sources eg = [])) \<and>
   (is_terminal st \<and> transition_allowed (gesture_state eg0) st \<longrightarrow>
      cancel_timeout_id (edge_set_state eg0 st) = 0 \<and>
      (cancel_timeout_id eg0 \<noteq> 0 \<longrightarrow>
         cancel_timeout_id eg0 \<notin> set (timeout_sources (edge_set_state eg0 st))))"
proof -
  have dnd: "dnd_run h shell_dnd_start_gesture_init inputs = Inr g \<longrightarrow>
      (is_terminal (gesture_state g) \<longrightarrow>
         shell_dnd_start_gesture_get_point_begin_event g = None \<and>
         shell_dnd_start_gesture_get_drag_triggering_event g = None) \<and>
      mset (copied_events g) = mset (freed_events g) + mset (held_events g)"
  proof
    assume "dnd_run h shell_dnd_start_gesture_init inputs = Inr g"
    with dnd_invariant_init have "dnd_invariant g" by (rule dnd_invariant_run)
    then show "(is_terminal (gesture_state g) \<longrightarrow>
         shell_dnd_start_gesture_get_point_begin_event g = None \<and>
         shell_dnd_start_gesture_get_drag_triggering_event g = None) \<and>
      mset (copied_events g) = mset (freed_events g) + mset (held_events g)"
      by (simp add: dnd_invariant_def shell_dnd_start_gesture_get_point_begin_event_def
            shell_dnd_start_gesture_get_drag_triggering_event_def)
  qed
  have dnd_step: "is_terminal st \<and> transition_allowed (gesture_state g0) st \<longrightarrow>
      shell_dnd_start_gesture_get_point_begin_event (dnd_set_state g0 st) = None \<and>
      shell_dnd_start_gesture_get_drag_triggering_event (dnd_set_state g0 st) = None \<and>
      freed_events (dnd_set_state g0 st) = freed_events g0 @ held_events g0"
    by (simp add: dnd_set_state_eq shell_dnd_start_gesture_get_point_begin_event_def
          shell_dnd_start_gesture_get_drag_triggering_event_def)
  have edge: "edge_run display shell_edge_drag_gesture_init einputs = Inr eg \<longrightarrow>
      length (timeout_sources eg) \<le> 1 \<and>
      (is_terminal (gesture_state eg) \<longrightarrow> cancel_timeout_id eg = 0 \<and> timeout_sources eg = [])"
  proof
    assume "edge_run display shell_edge_drag_gesture_init einputs = Inr eg"
    with edge_invariant_init have "edge_invariant eg" by (rule edge_invariant_run)
    then show "length (timeout_sources eg) \<le> 1 \<and>
      (is_terminal (gesture_state eg) \<longrightarrow> cancel_timeout_id eg = 0 \<and> timeout_sources eg = [])"
      by (auto simp add: edge_invariant_def)
  qed
  have edge_step: "is_terminal st \<and> transition_allowed (gesture_state eg0) st \<longrightarrow>
      cancel_timeout_id (edge_set_state eg0 st) = 0 \<and>
      (cancel_timeout_id eg0 \<noteq> 0 \<longrightarrow>
         cancel_timeout_id eg0 \<notin> set (timeout_sources (edge_set_state eg0 st)))"
    by (simp add: edge_set_state_eq)
  from dnd dnd_step edge edge_step show ?thesis by blast
qed


theorem terminal_transitions_release_witness:
  "dnd_run default_host shell_dnd_start_gesture_init
     [DND_POINT_BEGAN 0 (at_xy 100 100) (touch_at 1000), DND_START_DRAG (Some (touch_at 1200)),
      DND_POINT_ENDED 0] =
     Inr (shell_dnd_start_gesture_init
           \<lparr>gesture_state := CLUTTER_GESTURE_STATE_COMPLETED,
            copied_events := [touch_at 1000, touch_at 1200],
            freed_events := [touch_at 1200, touch_at 1000]\<rparr>) \<and>
   freed_events (dnd_set_state touch_gesture CLUTTER_GESTURE_STATE_CANCELLED) = [touch_at 1000] \<and>
   edge_run single_monitor shell_edge_drag_gesture_init
     [EDGE_POINT_BEGAN 0 (at_xy 500 5) (touch_at 1000), EDGE_POINT_ENDED 0] =
     Inr (shell_edge_drag_gesture_init
           \<lparr>gesture_state := CLUTTER_GESTURE_STATE_CANCELLED, last_source_id := 1,
            emitted := [GESTURE_STATE CLUTTER_GESTURE_STATE_POSSIBLE CLUTTER_GESTURE_STATE_CANCELLED]\<rparr>) \<and>
   timeout_sources (edge_set_state (edge_gesture ST_SIDE_TOP (at_xy 500 5) (at_xy 500 90))
      CLUTTER_GESTURE_STATE_COMPLETED) = []"
  using terminal_transitions_release
    [where h = default_host
       and inputs = "[DND_POINT_BEGAN 0 (at_xy 100 100) (touch_at 1000),
                      DND_START_DRAG (Some (touch_at 1200)), DND_POINT_ENDED 0]"
       and g = "shell_dnd_start_gesture_init
           \<lparr>gesture_state := CLUTTER_GESTURE_STATE_COMPLETED,
            copied_events := [touch_at 1000, touch_at 1200],
            freed_events := [touch_at 1200, touch_at 1000]\<rparr>"
       and st = CLUTTER_GESTURE_STATE_CANCELLED
       and ?g0.0 = touch_gesture
       and display = single_monitor
       and einputs = "[EDGE_POINT_BEGAN 0 (at_xy 500 5) (touch_at 1000), EDGE_POINT_ENDED 0]"
       and eg = "shell_edge_drag_gesture_init
           \<lparr>gesture_state := CLUTTER_GESTURE_STATE_CANCELLED, last_source_id := 1,
            emitted := [GESTURE_STATE CLUTTER_GESTURE_STATE_POSSIBLE CLUTTER_GESTURE_STATE_CANCELLED]\<rparr>"
       and ?eg0.0 = "edge_gesture ST_SIDE_TOP (at_xy 500 5) (at_xy 500 90)"]
  by (simp add: dnd_eval edge_eval scene_defs gesture_defs framework_defs Let_def
        touch_gesture_def edge_gesture_def held_events_def)

subsection \<open>A completed edge drag\<close>

lemma passes_iff:
  "clutter_gesture_get_point g point = Some p \<Longrightarrow>
   get_monitor_for_coords display (point_begin_coords_abs p) = Some m \<Longrightarrow>
   passes_distance_needed display g point = Inr (distance_from_edge (side g) m (point_coords_abs p) > 80)"
  by (cases "side g") (auto simp add: passes_distance_needed_def distance_from_edge_def)

lemma edge_point_moved_eq:
  assumes "clutter_gesture_get_point g point = Some p"
    and "get_monitor_for_coords display (point_coords_abs p) = Some mc"
    and "get_monitor_for_coords display (point_begin_coords_abs p) = Some mb"
    and "\<not> axis_displacement (side g) (point_begin_coords_abs p) (point_coords_abs p) > 100"
  shows "edge_point_moved display g point =
     Inr (let g1 = (if gesture_state g = CLUTTER_GESTURE_STATE_POSSIBLE \<and>
                       \<not> distance_from_edge (side g) mc (point_coords_abs p) < 20
                    then edge_set_state g CLUTTER_GESTURE_STATE_RECOGNIZING else g)
          in if gesture_state g1 = CLUTTER_GESTURE_STATE_RECOGNIZING
             then (let g2 = g1\<lparr>emitted := emitted g1 @
                         [PROGRESS (axis_displacement (side g) (point_begin_coords_abs p) (point_coords_abs p))]\<rparr>
                   in if distance_from_edge (side g) mb (point_coords_abs p) > 80
                      then edge_set_state g2 CLUTTER_GESTURE_STATE_COMPLETED else g2)
             else g1)"
proof -
  have p1: "clutter_gesture_get_point (edge_set_state g CLUTTER_GESTURE_STATE_RECOGNIZING) point = Some p"
    using assms(1) by (simp add: clutter_gesture_get_point_def)
  have pass: "\<And>g1 x. clutter_gesture_get_point g1 point = Some p \<Longrightarrow> side g1 = side g \<Longrightarrow>
      passes_distance_needed display (g1\<lparr>emitted := x\<rparr>) point =
        Inr (distance_from_edge (side g) mb (point_coords_abs p) > 80)"
    using assms(3) by (subst passes_iff [where p = p and m = mb]) (simp_all add: clutter_gesture_get_point_def)
  show ?thesis
    using assms p1
    by (simp add: edge_point_moved_def exceeds_iff is_near_iff pass Let_def split_def emit_progress_eq)
qed

lemma edge_point_moved_ended:
  assumes "is_terminal (gesture_state g)" and "clutter_gesture_get_point g point \<noteq> None"
  shows "edge_point_moved display g point = Inr g"
proof -
  obtain p where p: "clutter_gesture_get_point g point = Some p" using assms(2) by auto
  have "edge_set_state g CLUTTER_GESTURE_STATE_CANCELLED = g"
    using assms(1) by (auto simp add: edge_set_state_eq transition_allowed_def is_terminal_def)
  then show ?thesis
    using assms(1) p
    by (cases "axis_displacement (side g) (point_begin_coords_abs p) (point_coords_abs p) > 100")
       (auto simp add: edge_point_moved_def exceeds_iff is_terminal_def)
qed

lemma ended_stays:
  assumes "is_terminal (gesture_state g)" and "timeout_sources g = []"
    and "steady_touch display s m k b c inputs"
  shows "\<exists>g'. edge_run display g inputs = Inr g' \<and> gesture_state g' = gesture_state g \<and>
              emitted g' = emitted g"
  using assms
proof (induction inputs arbitrary: g c)
  case Nil
  then show ?case by simp
next
  case (Cons i inputs)
  show ?case
  proof (cases i)
    case (EDGE_POINT_MOVED point coords event)
    let ?g1 = "clutter_gesture_update_point g point coords event"
    have step: "edge_dispatch display g i = Inr g \<or> edge_dispatch display g i = Inr ?g1"
    proof (cases "clutter_gesture_get_point g point = None")
      case True
      with EDGE_POINT_MOVED show ?thesis by simp
    next
      case False
      then have "clutter_gesture_get_point ?g1 point \<noteq> None"
        by (simp add: get_point_update)
      moreover have "is_terminal (gesture_state ?g1)"
        using Cons.prems(1) by (simp add: clutter_gesture_update_point_def)
      ultimately have "edge_point_moved display ?g1 point = Inr ?g1"
        by (rule edge_point_moved_ended [rotated])
      with EDGE_POINT_MOVED False show ?thesis by simp
    qed
    have rest: "steady_touch display s m k b coords inputs"
      using Cons.prems(3) EDGE_POINT_MOVED by simp
    have same: "is_terminal (gesture_state ?g1)" "timeout_sources ?g1 = []"
      "gesture_state ?g1 = gesture_state g" "emitted ?g1 = emitted g"
      using Cons.prems(1,2) by (simp_all add: clutter_gesture_update_point_def)
    from step show ?thesis
    proof
      assume "edge_dispatch display g i = Inr g"
      with Cons.IH [OF Cons.prems(1,2) rest] show ?thesis by simp
    next
      assume "edge_dispatch display g i = Inr ?g1"
      with Cons.IH [OF same(1,2) rest] same(3,4) show ?thesis by simp
    qed
  next
    case EDGE_CANCEL_TIMEOUT
    then have "edge_dispatch display g i = Inr g"
      using Cons.prems(2) by (simp add: dispatch_cancel_timeout_def)
    moreover have "steady_touch display s m k b c inputs"
      using Cons.prems(3) EDGE_CANCEL_TIMEOUT by simp
    ultimately show ?thesis
      using Cons.IH [OF Cons.prems(1,2)] by simp
  qed (use Cons.prems(3) in simp_all)
qed

lemma displacement_lower:
  "distance_from_edge s m b < 20 \<Longrightarrow> distance_from_edge s m c > 80 \<Longrightarrow> axis_displacement s b c > 60"
  by (cases s) (simp_all add: distance_from_edge_def axis_displacement_def)


lemma tracking_point:
  assumes "tracking s k b c g"
  obtains e where "gesture_points g =
      [(k, \<lparr>point_begin_coords_abs = b, point_coords_abs = c, point_event = e\<rparr>)]"
proof -
  from assms obtain i p where ip: "gesture_points g = [(i, p)]" "i = k"
      "point_begin_coords_abs p = b" "point_coords_abs p = c"
    by (auto simp add: tracking_def map_eq_Cons_conv)
  then have "gesture_points g =
      [(k, \<lparr>point_begin_coords_abs = b, point_coords_abs = c, point_event = point_event p\<rparr>)]"
    by (cases p) simp
  then show thesis by (rule that)
qed

lemma tracking_move:
  assumes "tracking s k b c g"
    and "get_monitor_for_coords display b = Some m"
    and "get_monitor_for_coords display coords = Some m"
    and "axis_displacement s b coords \<le> 100"
  shows "if distance_from_edge s m coords > 80
         then \<exists>g' before. edge_dispatch display g (EDGE_POINT_MOVED k coords event) = Inr g' \<and>
                gesture_state g' = CLUTTER_GESTURE_STATE_COMPLETED \<and> timeout_sources g' = [] \<and>
                emitted g' = before @ [PROGRESS (axis_displacement s b coords),
                    GESTURE_STATE CLUTTER_GESTURE_STATE_RECOGNIZING CLUTTER_GESTURE_STATE_COMPLETED]
         else \<exists>g'. edge_dispatch display g (EDGE_POINT_MOVED k coords event) = Inr g' \<and>
                tracking s k b coords g'"
proof -
  from assms(1) obtain e where pts: "gesture_points g =
      [(k, \<lparr>point_begin_coords_abs = b, point_coords_abs = c, point_event = e\<rparr>)]"
    by (rule tracking_point)
  let ?p = "\<lparr>point_begin_coords_abs = b, point_coords_abs = coords, point_event = event\<rparr>"
  let ?g1 = "clutter_gesture_update_point g k coords event"
  have g1: "gesture_points ?g1 = [(k, ?p)]" "side ?g1 = s" "gesture_state ?g1 = gesture_state g"
    "emitted ?g1 = emitted g" "cancel_timeout_point ?g1 = k" "edge_invariant ?g1"
    "\<not> is_terminal (gesture_state g)"
    using assms(1) pts by (simp_all add: tracking_def clutter_gesture_update_point_def edge_invariant_def)
  have p: "clutter_gesture_get_point ?g1 k = Some ?p"
    using g1(1) by (simp add: clutter_gesture_get_point_def)
  have tracked: "clutter_gesture_get_point g k =
      Some \<lparr>point_begin_coords_abs = b, point_coords_abs = c, point_event = e\<rparr>"
    using pts by (simp add: clutter_gesture_get_point_def)
  have d: "\<not> axis_displacement (side ?g1) (point_begin_coords_abs ?p) (point_coords_abs ?p) > 100"
    using assms(4) g1(2) by simp
  have m: "get_monitor_for_coords display (point_coords_abs ?p) = Some m"
    "get_monitor_for_coords display (point_begin_coords_abs ?p) = Some m"
    using assms(2,3) by simp_all
  note eq = edge_point_moved_eq [OF p m d]
  have disp: "edge_dispatch display g (EDGE_POINT_MOVED k coords event) = edge_point_moved display ?g1 k"
    using tracked by simp
  have live: "gesture_state g = CLUTTER_GESTURE_STATE_POSSIBLE \<or>
      gesture_state g = CLUTTER_GESTURE_STATE_RECOGNIZING"
    using g1(7) by (cases "gesture_state g") (simp_all add: is_terminal_def)
  have inv: "timeout_sources ?g1 = (if cancel_timeout_id ?g1 = 0 then [] else [cancel_timeout_id ?g1])"
    using g1(6) by (simp add: edge_invariant_def)
  show ?thesis
  proof (cases "distance_from_edge s m coords > 80")
    case True
    then have far: "\<not> distance_from_edge s m coords < 20" by simp
    from live show ?thesis
    proof
      assume "gesture_state g = CLUTTER_GESTURE_STATE_POSSIBLE"
      then show ?thesis
        using True far g1(2,3,4) inv unfolding disp eq
        by (simp add: Let_def edge_set_state_eq transition_allowed_def is_terminal_def)
    next
      assume "gesture_state g = CLUTTER_GESTURE_STATE_RECOGNIZING"
      then show ?thesis
        using True g1(2,3,4) inv unfolding disp eq
        by (simp add: Let_def edge_set_state_eq transition_allowed_def is_terminal_def)
    qed
  next
    case False
    from live show ?thesis
    proof
      assume "gesture_state g = CLUTTER_GESTURE_STATE_POSSIBLE"
      then show ?thesis
        using False g1 unfolding disp eq
        by (auto simp add: Let_def edge_set_state_eq transition_allowed_def is_terminal_def
              tracking_def edge_invariant_def)
    next
      assume "gesture_state g = CLUTTER_GESTURE_STATE_RECOGNIZING"
      then show ?thesis
        using False g1 unfolding disp eq
        by (auto simp add: Let_def tracking_def edge_invariant_def is_terminal_def)
    qed
  qed
qed

lemma tracking_timeout:
  assumes "tracking s k b c g"
    and "get_monitor_for_coords display c = Some m"
    and "\<not> distance_from_edge s m c < 20"
  shows "\<exists>g'. edge_dispatch display g EDGE_CANCEL_TIMEOUT = Inr g' \<and> tracking s k b c g'"
proof (cases "timeout_sources g")
  case Nil
  with assms(1) show ?thesis by (simp add: dispatch_cancel_timeout_def)
next
  case (Cons source_id others)
  from assms(1) obtain e where pts: "gesture_points g =
      [(k, \<lparr>point_begin_coords_abs = b, point_coords_abs = c, point_event = e\<rparr>)]"
    by (rule tracking_point)
  let ?p = "\<lparr>point_begin_coords_abs = b, point_coords_abs = c, point_event = e\<rparr>"
  have p: "clutter_gesture_get_point g (cancel_timeout_point g) = Some ?p"
    using assms(1) pts by (simp add: tracking_def clutter_gesture_get_point_def)
  have m: "get_monitor_for_coords display (point_coords_abs ?p) = Some m"
    using assms(2) by simp
  have "is_near_monitor_edge display g (cancel_timeout_point g) = Inr False"
    using is_near_iff [OF p m] assms(1,3) by (simp add: tracking_def)
  then have "dispatch_cancel_timeout display g =
      Inr (g_source_remove (g\<lparr>cancel_timeout_id := 0\<rparr>) source_id)"
    using Cons by (simp add: dispatch_cancel_timeout_def on_cancel_timeout_def)
  moreover have "tracking s k b c (g_source_remove (g\<lparr>cancel_timeout_id := 0\<rparr>) source_id)"
    using assms(1) Cons pts
    by (auto simp add: tracking_def edge_invariant_def g_source_remove_def split: if_splits)
  ultimately show ?thesis by simp
qed

lemma tracking_begin:
  assumes "gesture_points g = []"
    and "gesture_state g \<noteq> CLUTTER_GESTURE_STATE_RECOGNIZING"
    and "cancel_timeout_id g = 0" and "timeout_sources g = []"
    and "get_monitor_for_coords display b = Some m"
    and "distance_from_edge (side g) m b < 20"
  shows "\<exists>g'. edge_dispatch display g (EDGE_POINT_BEGAN k b event) = Inr g' \<and>
              tracking (side g) k b b g'"
proof -
  let ?g0 = "clutter_gesture_new_attempt g"
  let ?p = "\<lparr>point_begin_coords_abs = b, point_coords_abs = b, point_event = event\<rparr>"
  let ?g1 = "clutter_gesture_add_point ?g0 k b event"
  have g0: "gesture_state ?g0 = CLUTTER_GESTURE_STATE_POSSIBLE" "gesture_points ?g0 = []"
    "cancel_timeout_id ?g0 = 0" "timeout_sources ?g0 = []" "side ?g0 = side g"
    using assms(1-4)
    by (cases "gesture_state g"; simp add: clutter_gesture_new_attempt_def is_terminal_def)+
  have g1: "gesture_state ?g1 = CLUTTER_GESTURE_STATE_POSSIBLE" "gesture_points ?g1 = [(k, ?p)]"
    "cancel_timeout_id ?g1 = 0" "timeout_sources ?g1 = []" "side ?g1 = side g"
    using g0 by (simp_all add: clutter_gesture_add_point_def)
  have p: "clutter_gesture_get_point ?g1 k = Some ?p"
    using g1(2) by (simp add: clutter_gesture_get_point_def)
  have m: "get_monitor_for_coords display (point_coords_abs ?p) = Some m"
    using assms(5) by simp
  have near: "is_near_monitor_edge display ?g1 k = Inr True"
    using is_near_iff [OF p m] assms(6) g1(5) by simp
  have "edge_dispatch display g (EDGE_POINT_BEGAN k b event) = edge_point_began display ?g1 k"
    using g0 by (simp add: Let_def is_terminal_def clutter_gesture_get_point_def)
  moreover have "\<exists>g'. edge_point_began display ?g1 k = Inr g' \<and> tracking (side g) k b b g'"
    using near g1
    by (simp add: edge_point_began_def Let_def g_timeout_add_def clutter_gesture_get_n_points_def
          tracking_def edge_invariant_def is_terminal_def)
  ultimately show ?thesis by simp
qed

lemma tracking_run:
  assumes "tracking s k b c g"
    and "get_monitor_for_coords display b = Some m"
    and "distance_from_edge s m b < 20"
    and "get_monitor_for_coords display c = Some m"
    and "steady_touch display s m k b c inputs"
    and "reaches_drag_distance s m inputs"
  shows "\<exists>g' before coords. edge_run display g inputs = Inr g' \<and>
           gesture_state g' = CLUTTER_GESTURE_STATE_COMPLETED \<and>
           completing_move s m inputs = Some coords \<and>
           emitted g' = before @ [PROGRESS (axis_displacement s b coords),
               GESTURE_STATE CLUTTER_GESTURE_STATE_RECOGNIZING CLUTTER_GESTURE_STATE_COMPLETED] \<and>
           60 < axis_displacement s b coords \<and> axis_displacement s b coords \<le> 100"
  using assms(1,4,5,6)
proof (induction inputs arbitrary: g c)
  case Nil
  then show ?case by simp
next
  case (Cons i inputs)
  show ?case
  proof (cases i)
    case (EDGE_POINT_MOVED point coords event)
    with Cons.prems(3) have st: "point = k" "get_monitor_for_coords display coords = Some m"
        "axis_displacement s b coords \<le> 100" "steady_touch display s m k b coords inputs"
      by simp_all
    note mv = tracking_move [OF Cons.prems(1) assms(2) st(2,3), of event]
    show ?thesis
    proof (cases "distance_from_edge s m coords > 80")
      case True
      with mv obtain g1 before where g1: "edge_dispatch display g (EDGE_POINT_MOVED k coords event) = Inr g1"
          "gesture_state g1 = CLUTTER_GESTURE_STATE_COMPLETED" "timeout_sources g1 = []"
          "emitted g1 = before @ [PROGRESS (axis_displacement s b coords),
              GESTURE_STATE CLUTTER_GESTURE_STATE_RECOGNIZING CLUTTER_GESTURE_STATE_COMPLETED]"
        by auto
      have "is_terminal (gesture_state g1)" using g1(2) by (simp add: is_terminal_def)
      from ended_stays [OF this g1(3) st(4)]
      obtain g' where g': "edge_run display g1 inputs = Inr g'" "gesture_state g' = gesture_state g1"
          "emitted g' = emitted g1"
        by auto
      have "60 < axis_displacement s b coords"
        using assms(3) True by (rule displacement_lower)
      moreover have "completing_move s m (i # inputs) = Some coords"
        using EDGE_POINT_MOVED True by simp
      ultimately show ?thesis
        using g1 g' st(1,3) EDGE_POINT_MOVED by auto
    next
      case False
      with mv obtain g1 where g1: "edge_dispatch display g (EDGE_POINT_MOVED k coords event) = Inr g1"
          "tracking s k b coords g1"
        by auto
      have "reaches_drag_distance s m inputs"
        using Cons.prems(4) EDGE_POINT_MOVED False by simp
      moreover have "completing_move s m (i # inputs) = completing_move s m inputs"
        using EDGE_POINT_MOVED False by simp
      ultimately show ?thesis
        using Cons.IH [OF g1(2) st(2,4)] g1(1) st(1) EDGE_POINT_MOVED by simp
    qed
  next
    case EDGE_CANCEL_TIMEOUT
    with Cons.prems(3) have st: "\<not> distance_from_edge s m c < 20" "steady_touch display s m k b c inputs"
      by simp_all
    from tracking_timeout [OF Cons.prems(1,2) st(1)]
    obtain g1 where g1: "edge_dispatch display g EDGE_CANCEL_TIMEOUT = Inr g1" "tracking s k b c g1"
      by auto
    have "reaches_drag_distance s m inputs"
      using Cons.prems(4) EDGE_CANCEL_TIMEOUT by simp
    moreover have "completing_move s m (i # inputs) = completing_move s m inputs"
      using EDGE_CANCEL_TIMEOUT by simp
    ultimately show ?thesis
      using Cons.IH [OF g1(2) Cons.prems(2) st(2)] g1(1) EDGE_CANCEL_TIMEOUT by simp
  qed (use Cons.prems(3) in simp_all)
qed

text \<open>
  Claim C2, as the code has it.  The recognizer tracks no point and its timer is not armed.
  A touch begins within 20 pixels of the configured edge of its monitor, stays on that
  monitor, is never displaced by more than 100 pixels on the axis of the side, is not caught
  by the cancel timer inside the edge band, and reaches a position more than 80 pixels from
  the edge.  Then the gesture ends Completed, and its last outputs are a progress emission
  followed by the transition from Recognizing to Completed; the value of that emission is
  the displacement since begin of the completing move (the first move that reaches such a
  position), on the axis of the side, and it is more than 60 and at most 100.
\<close>

theorem edge_drag_completes:
  assumes "gesture_points g = []"
    and "gesture_state g \<noteq> CLUTTER_GESTURE_STATE_RECOGNIZING"
    and "cancel_timeout_id g = 0" and "timeout_sources g = []"
    and "get_monitor_for_coords display b = Some m"
    and "distance_from_edge (side g) m b < 20"
    and "steady_touch display (side g) m k b b inputs"
    and "reaches_drag_distance (side g) m inputs"
  shows "\<exists>g' before coords.
           edge_run display g (EDGE_POINT_BEGAN k b event # inputs) = Inr g' \<and>
           gesture_state g' = CLUTTER_GESTURE_STATE_COMPLETED \<and>
           completing_move (side g) m inputs = Some coords \<and>
           emitted g' = before @ [PROGRESS (axis_displacement (side g) b coords),
               GESTURE_STATE CLUTTER_GESTURE_STATE_RECOGNIZING CLUTTER_GESTURE_STATE_COMPLETED] \<and>
           60 < axis_displacement (side g) b coords \<and>
           axis_displacement (side g) b coords \<le> 100"
proof -
  from tracking_begin [OF assms(1-6)]
  obtain g1 where g1: "edge_dispatch display g (EDGE_POINT_BEGAN k b event) = Inr g1"
      "tracking (side g) k b b g1"
    by blast
  from tracking_run [OF g1(2) assms(5,6,5,7,8)] g1(1)
  show ?thesis by simp
qed

theorem edge_drag_completes_witness:
  "steady_touch single_monitor ST_SIDE_TOP full_hd 0 (at_xy 500 19) (at_xy 500 19)
     [EDGE_POINT_MOVED 0 (at_xy 500 81) (touch_at 1100), EDGE_CANCEL_TIMEOUT,
      EDGE_POINT_MOVED 0 (at_xy 500 99) (touch_at 1300)] \<and>
   reaches_drag_distance ST_SIDE_TOP full_hd
     [EDGE_POINT_MOVED 0 (at_xy 500 81) (touch_at 1100), EDGE_CANCEL_TIMEOUT,
      EDGE_POINT_MOVED 0 (at_xy 500 99) (touch_at 1300)] \<and>
   completing_move ST_SIDE_TOP full_hd
     [EDGE_POINT_MOVED 0 (at_xy 500 81) (touch_at 1100), EDGE_CANCEL_TIMEOUT,
      EDGE_POINT_MOVED 0 (at_xy 500 99) (touch_at 1300)] = Some (at_xy 500 81) \<and>
   axis_displacement ST_SIDE_TOP (at_xy 500 19) (at_xy 500 81) = 62 \<and>
   edge_run single_monitor shell_edge_drag_gesture_init
     [EDGE_POINT_BEGAN 0 (at_xy 500 19) (touch_at 1000),
      EDGE_POINT_MOVED 0 (at_xy 500 81) (touch_at 1100), EDGE_CANCEL_TIMEOUT,
      EDGE_POINT_MOVED 0 (at_xy 500 99) (touch_at 1300)] =
     Inr (shell_edge_drag_gesture_init
           \<lparr>gesture_state := CLUTTER_GESTURE_STATE_COMPLETED,
            gesture_points := one_point (at_xy 500 19) (at_xy 500 99) (touch_at 1300),
            last_source_id := 1,
            emitted := [GESTURE_STATE CLUTTER_GESTURE_STATE_POSSIBLE CLUTTER_GESTURE_STATE_RECOGNIZING,
                        PROGRESS 62,
                        GESTURE_STATE CLUTTER_GESTURE_STATE_RECOGNIZING CLUTTER_GESTURE_STATE_COMPLETED]\<rparr>)"
  using edge_drag_completes
    [of shell_edge_drag_gesture_init single_monitor "at_xy 500 19" full_hd 0
        "[EDGE_POINT_MOVED 0 (at_xy 500 81) (touch_at 1100), EDGE_CANCEL_TIMEOUT,
          EDGE_POINT_MOVED 0 (at_xy 500 99) (touch_at 1300)]" "touch_at 1000"]
  by (simp add: edge_eval scene_defs gesture_defs framework_defs Let_def full_hd_def
        distance_from_edge_def axis_displacement_def)

text \<open>
  The claim C2 as written fails on three touches at the top edge.  The first begins 19 pixels
  from the edge and moves to 81 and then 99 pixels, 80 pixels in all: the gesture completes on
  the first move and its last progress value is 62.  The second begins on the edge, is still
  there when the timer fires, and then moves 85 pixels: it is Cancelled.  The third begins on
  the edge and moves exactly 80 pixels: it is still Recognizing.
\<close>

theorem edge_drag_completes_counterexample:
  "edge_run single_monitor shell_edge_drag_gesture_init
     [EDGE_POINT_BEGAN 0 (at_xy 500 19) (touch_at 1000),
      EDGE_POINT_MOVED 0 (at_xy 500 81) (touch_at 1100),
      EDGE_POINT_MOVED 0 (at_xy 500 99) (touch_at 1150)] =
     Inr (shell_edge_drag_gesture_init
           \<lparr>gesture_state := CLUTTER_GESTURE_STATE_COMPLETED,
            gesture_points := one_point (at_xy 500 19) (at_xy 500 99) (touch_at 1150),
            last_source_id := 1,
            emitted := [GESTURE_STATE CLUTTER_GESTURE_STATE_POSSIBLE CLUTTER_GESTURE_STATE_RECOGNIZING,
                        PROGRESS 62,
                        GESTURE_STATE CLUTTER_GESTURE_STATE_RECOGNIZING CLUTTER_GESTURE_STATE_COMPLETED]\<rparr>) \<and>
   (62 :: real) < 80 \<and>
   result_state (edge_run single_monitor shell_edge_drag_gesture_init
     [EDGE_POINT_BEGAN 0 (at_xy 500 0) (touch_at 1000), EDGE_CANCEL_TIMEOUT,
      EDGE_POINT_MOVED 0 (at_xy 500 85) (touch_at 1300)]) = Some CLUTTER_GESTURE_STATE_CANCELLED \<and>
   result_state (edge_run single_monitor shell_edge_drag_gesture_init
     [EDGE_POINT_BEGAN 0 (at_xy 500 0) (touch_at 1000),
      EDGE_POINT_MOVED 0 (at_xy 500 80) (touch_at 1100)]) = Some CLUTTER_GESTURE_STATE_RECOGNIZING"
  by (simp add: edge_eval scene_defs gesture_defs framework_defs Let_def result_state_def
        ceiling_minus)

end
